theory Spec2Isabelle
  imports Main
begin

section \<open>JavaScript values\<close>

text \<open>
  The values that travel through the signalling helper of
  \<^verbatim>\<open>webrtc/cross-browser-helper.js\<close> are data: what \<^verbatim>\<open>JSON.parse\<close> yields, and
  \<^verbatim>\<open>undefined\<close>. A number is named by the text the language prints for it, which tells
  any two numbers apart; how a number is printed is therefore not computed here. An
  object is the list of its own properties, over \<^verbatim>\<open>Object.prototype\<close>; were a name listed
  twice, the first entry counts. No value is a function, so no value has a method of its
  own.
\<close>

datatype number = Number string

datatype jsval =
    JNull
  | JUndefined
  | JBool bool
  | JNum number
  | JStr string
  | JArr "jsval list"
  | JObj "(string \<times> jsval) list"

text \<open>
  What the resolving functions of a promise can be called with, as they look at it: a
  value that is no thenable; a thenable, named by a number; the promise itself; an object
  whose \<^verbatim>\<open>then\<close> cannot be read, with what reading it throws. And what a promise is rejected
  with: what was given, or the \<^verbatim>\<open>TypeError\<close> of a promise resolved with itself.
\<close>

datatype argument =
    Plain jsval
  | Thenable nat
  | Itself
  | ThenThrows jsval

datatype reason = Given argument | ChainingCycle

text \<open>
  What can be thrown: the harness's unreachable assertion, a \<^verbatim>\<open>TypeError\<close>, any value, and
  by an \<^verbatim>\<open>await\<close> what the promise was rejected with.
\<close>

datatype error =
    AssertUnreached string
  | TypeError string
  | Thrown jsval
  | Rejection reason

fun join :: "string \<Rightarrow> string list \<Rightarrow> string" where
  "join sep [] = []"
| "join sep [x] = x"
| "join sep (x # y # ys) = x @ sep @ join sep (y # ys)"

text \<open>
  The string conversion of a template literal \<^verbatim>\<open>`${v}`\<close>. \<^verbatim>\<open>null\<close> and \<^verbatim>\<open>undefined\<close> print
  their names and a number its text. An array joins the conversions of its elements with
  commas, \<^verbatim>\<open>null\<close> and \<^verbatim>\<open>undefined\<close> among them giving the empty string. An object is
  converted by its \<^verbatim>\<open>toString\<close>: the inherited one prints \<^verbatim>\<open>[object Object]\<close>; an own
  property of that name is no function, the inherited \<^verbatim>\<open>valueOf\<close> returns the object
  itself, and the conversion throws a \<^verbatim>\<open>TypeError\<close>.
\<close>

fun ToString :: "jsval \<Rightarrow> error + string"
  and ToStrings :: "jsval list \<Rightarrow> error + string list" where
  "ToString JNull = Inr ''null''"
| "ToString JUndefined = Inr ''undefined''"
| "ToString (JBool b) = Inr (if b then ''true'' else ''false'')"
| "ToString (JNum (Number text)) = Inr text"
| "ToString (JStr s) = Inr s"
| "ToString (JArr xs) =
     (case ToStrings xs of Inl e \<Rightarrow> Inl e | Inr texts \<Rightarrow> Inr (join '','' texts))"
| "ToString (JObj fields) =
     (case map_of fields ''toString'' of
        None \<Rightarrow> Inr ''[object Object]''
      | Some _ \<Rightarrow> Inl (TypeError ''Cannot convert object to primitive value''))"
| "ToStrings [] = Inr []"
| "ToStrings (x # xs) =
     (case (if x = JNull \<or> x = JUndefined then Inr [] else ToString x) of
        Inl e \<Rightarrow> Inl e
      | Inr text \<Rightarrow>
          (case ToStrings xs of Inl e \<Rightarrow> Inl e | Inr texts \<Rightarrow> Inr (text # texts)))"

text \<open>
  Reading \<^verbatim>\<open>v.status\<close> or \<^verbatim>\<open>v.message\<close>, the only properties the helper reads off a value
  it did not build: a \<^verbatim>\<open>TypeError\<close> on \<^verbatim>\<open>null\<close> and \<^verbatim>\<open>undefined\<close>, the own property of an
  object, and \<^verbatim>\<open>undefined\<close> otherwise, no prototype having a property of either name.
\<close>

datatype property = Status | Message

fun prop_name :: "property \<Rightarrow> string" where
  "prop_name Status = ''status''"
| "prop_name Message = ''message''"

fun get_prop :: "jsval \<Rightarrow> property \<Rightarrow> error + jsval" where
  "get_prop JNull p = Inl (TypeError (''Cannot read properties of null: '' @ prop_name p))"
| "get_prop JUndefined p = Inl (TypeError (''Cannot read properties of undefined: '' @ prop_name p))"
| "get_prop (JObj fields) p =
     Inr (case map_of fields (prop_name p) of None \<Rightarrow> JUndefined | Some v \<Rightarrow> v)"
| "get_prop _ p = Inr JUndefined"

text \<open>What the operator \<^verbatim>\<open>in\<close> accepts as its right operand.\<close>

fun is_object :: "jsval \<Rightarrow> bool" where
  "is_object (JObj props) = True"
| "is_object (JArr xs) = True"
| "is_object _ = False"

section \<open>Future\<close>

text \<open>
  \<^verbatim>\<open>class Future extends Promise\<close> keeps the two resolving functions of the promise it is
  and exposes them as the methods \<^verbatim>\<open>resolve\<close> and \<^verbatim>\<open>reject\<close>. The promise underneath is
  the language's. The two functions share a flag, set by the first call of either, after
  which both do nothing. \<^verbatim>\<open>reject\<close> rejects the promise with its argument. \<^verbatim>\<open>resolve\<close>
  looks at its argument: the promise itself is a \<^verbatim>\<open>TypeError\<close> rejection; an object whose
  \<^verbatim>\<open>then\<close> cannot be read rejects with what the read threw; a thenable (an object with a
  callable \<^verbatim>\<open>then\<close>, such as another promise) is followed: the promise stays pending
  and the thenable is handed a new pair of resolving functions, of which again only the
  first call counts; any other value fulfils the promise.

  The promise holds the reactions of those who awaited it while it was pending, and
  settling it queues one job per reaction. An awaiter is named by a number; \<open>jobs\<close> lists,
  in queueing order, which awaiter was handed which outcome.
\<close>

datatype settlement = Fulfilled jsval | Rejected reason

datatype settle_call = Resolve argument | Reject argument

record future =
  settled :: "settlement option"
  alreadyResolved :: bool
  following :: bool
  reactions :: "nat list"
  jobs :: "(nat \<times> settlement) list"

definition pending_promise :: future where
  "pending_promise =
     \<lparr>settled = None, alreadyResolved = False, following = False, reactions = [], jobs = []\<rparr>"

text \<open>Settling a pending promise.\<close>

definition settle :: "settlement \<Rightarrow> future \<Rightarrow> future" where
  "settle out f =
     (case settled f of
        Some _ \<Rightarrow> f
      | None \<Rightarrow> f\<lparr>settled := Some out, reactions := [],
                  jobs := jobs f @ map (\<lambda>w. (w, out)) (reactions f)\<rparr>)"

text \<open>What a resolving function does with its argument once its pair's flag allowed the call.\<close>

fun resolution :: "settle_call \<Rightarrow> future \<Rightarrow> future" where
  "resolution (Reject a) f = settle (Rejected (Given a)) f"
| "resolution (Resolve (Plain v)) f = settle (Fulfilled v) f"
| "resolution (Resolve (Thenable n)) f = f\<lparr>following := True\<rparr>"
| "resolution (Resolve Itself) f = settle (Rejected ChainingCycle) f"
| "resolution (Resolve (ThenThrows v)) f = settle (Rejected (Given (Plain v))) f"

text \<open>The methods \<^verbatim>\<open>resolve\<close> and \<^verbatim>\<open>reject\<close>: the pair of the promise's constructor.\<close>

definition Future_call :: "settle_call \<Rightarrow> future \<Rightarrow> future" where
  "Future_call c f =
     (if alreadyResolved f then f else resolution c (f\<lparr>alreadyResolved := True\<rparr>))"

definition Future_resolve :: "argument \<Rightarrow> future \<Rightarrow> future" where
  "Future_resolve a f = Future_call (Resolve a) f"

definition Future_reject :: "argument \<Rightarrow> future \<Rightarrow> future" where
  "Future_reject a f = Future_call (Reject a) f"

text \<open>
  The thenable that the promise follows calls one of the resolving functions it was
  handed: the first such call counts, and may make the promise follow a thenable again.
\<close>

definition Future_callback :: "settle_call \<Rightarrow> future \<Rightarrow> future" where
  "Future_callback c f =
     (if following f then resolution c (f\<lparr>following := False\<rparr>) else f)"

text \<open>
  The constructor: the executor, when there is one, is run with the same two resolving
  functions; it is given here by the calls it makes on them, a throw of the executor
  counting as a last call of \<^verbatim>\<open>reject\<close>, which is what the promise makes of it. Every
  \<^verbatim>\<open>new Future()\<close> of the helper passes none.
\<close>

definition Future_new :: "settle_call list option \<Rightarrow> future" where
  "Future_new executor =
     (case executor of
        None \<Rightarrow> pending_promise
      | Some calls \<Rightarrow> fold Future_call calls pending_promise)"

text \<open>\<^verbatim>\<open>await future\<close> by awaiter \<open>w\<close>: a reaction while pending, a job at once when settled.\<close>

definition Future_await :: "nat \<Rightarrow> future \<Rightarrow> future" where
  "Future_await w f =
     (case settled f of
        None \<Rightarrow> f\<lparr>reactions := reactions f @ [w]\<rparr>
      | Some out \<Rightarrow> f\<lparr>jobs := jobs f @ [(w, out)]\<rparr>)"

datatype future_op = Call settle_call | Await nat | Callback settle_call

fun Future_op :: "future_op \<Rightarrow> future \<Rightarrow> future" where
  "Future_op (Call c) f = Future_call c f"
| "Future_op (Await w) f = Future_await w f"
| "Future_op (Callback c) f = Future_callback c f"

fun is_call :: "future_op \<Rightarrow> bool" where
  "is_call (Call c) = True"
| "is_call _ = False"

fun calls_of :: "future_op list \<Rightarrow> settle_call list" where
  "calls_of [] = []"
| "calls_of (Call c # ops) = c # calls_of ops"
| "calls_of (_ # ops) = calls_of ops"

fun awaiters_of :: "future_op list \<Rightarrow> nat list" where
  "awaiters_of [] = []"
| "awaiters_of (Await w # ops) = w # awaiters_of ops"
| "awaiters_of (_ # ops) = awaiters_of ops"

text \<open>A history without the calls of \<^verbatim>\<open>resolve\<close> and \<^verbatim>\<open>reject\<close> that come after the first.\<close>

fun first_call_only :: "future_op list \<Rightarrow> future_op list" where
  "first_call_only [] = []"
| "first_call_only (Call c # ops) = Call c # filter (\<lambda>x. \<not> is_call x) ops"
| "first_call_only (x # ops) = x # first_call_only ops"

text \<open>The outcome a call settles a pending promise with at once, if it does.\<close>

fun immediate :: "settle_call \<Rightarrow> settlement option" where
  "immediate (Reject a) = Some (Rejected (Given a))"
| "immediate (Resolve (Plain v)) = Some (Fulfilled v)"
| "immediate (Resolve (Thenable n)) = None"
| "immediate (Resolve Itself) = Some (Rejected ChainingCycle)"
| "immediate (Resolve (ThenThrows v)) = Some (Rejected (Given (Plain v)))"

text \<open>The calls of an executor, as part of a history.\<close>

definition executor_calls :: "settle_call list option \<Rightarrow> future_op list" where
  "executor_calls executor = map Call (case executor of None \<Rightarrow> [] | Some calls \<Rightarrow> calls)"

text \<open>
  What the thenable that a promise follows reports, read off the rest of a history: the
  first call-back that settles; a call-back that names a further thenable passes the
  promise on to that one.
\<close>

fun reported :: "future_op list \<Rightarrow> settlement option" where
  "reported [] = None"
| "reported (Callback c # ops) =
     (case immediate c of Some out \<Rightarrow> Some out | None \<Rightarrow> reported ops)"
| "reported (_ # ops) = reported ops"

text \<open>
  The outcome of a history: the first call of \<^verbatim>\<open>resolve\<close> or \<^verbatim>\<open>reject\<close> decides, at once
  or, for a thenable, by what the thenable reports afterwards.
\<close>

fun outcome :: "future_op list \<Rightarrow> settlement option" where
  "outcome [] = None"
| "outcome (Call c # ops) =
     (case immediate c of Some out \<Rightarrow> Some out | None \<Rightarrow> reported ops)"
| "outcome (_ # ops) = outcome ops"

text \<open>
  What holds of a promise at all times: pending, nothing was handed to anybody, and it
  is resolved exactly when it follows a thenable; settled, it is resolved, follows
  nothing, holds no reaction, and all it handed out is its outcome.
\<close>

definition coherent :: "future \<Rightarrow> bool" where
  "coherent f =
     (case settled f of
        None \<Rightarrow> jobs f = [] \<and> alreadyResolved f = following f
      | Some out \<Rightarrow> alreadyResolved f \<and> \<not> following f \<and> reactions f = []
                    \<and> list_all (\<lambda>j. snd j = out) (jobs f))"

section \<open>Signaling\<close>

text \<open>
  A signalling message as the helper looks at it: an object of which only the properties
  \<^verbatim>\<open>type\<close> and \<^verbatim>\<open>value\<close> are ever read, each of which it has or has not.
\<close>

record message =
  msg_type :: "jsval option"
  msg_value :: "jsval option"

text \<open>
  What \<^verbatim>\<open>_receiveMessage\<close> is called with is any value: what \<^verbatim>\<open>JSON.parse\<close> made of a frame,
  or what the peer passed to \<^verbatim>\<open>_sendMessage\<close>. The operator \<^verbatim>\<open>in\<close> throws a \<^verbatim>\<open>TypeError\<close>
  when its right operand is no object; an array is an object with neither property.
\<close>

fun as_message :: "jsval \<Rightarrow> error + message" where
  "as_message (JObj props) =
     Inr \<lparr>msg_type = map_of props ''type'', msg_value = map_of props ''value''\<rparr>"
| "as_message (JArr xs) = Inr \<lparr>msg_type = None, msg_value = None\<rparr>"
| "as_message _ = Inl (TypeError ''Cannot use 'in' operator to search for 'type' '')"

text \<open>The object with the two properties a message has and no other.\<close>

definition object_of :: "message \<Rightarrow> jsval" where
  "object_of m =
     JObj ((case msg_type m of None \<Rightarrow> [] | Some t \<Rightarrow> [(''type'', t)])
           @ (case msg_value m of None \<Rightarrow> [] | Some v \<Rightarrow> [(''value'', v)]))"

text \<open>Reading \<^verbatim>\<open>message.value\<close>: \<^verbatim>\<open>undefined\<close> when the property is absent.\<close>

definition value_of :: "message \<Rightarrow> jsval" where
  "value_of m = (case msg_value m of None \<Rightarrow> JUndefined | Some v \<Rightarrow> v)"

text \<open>
  A call either returns a value or throws; both leave a state behind. A throw keeps the
  state reached when it happened, since the object lives on after the exception.
\<close>

datatype ('r, 's) completion = Return 'r 's | Throw error 's

fun state_of :: "('r, 's) completion \<Rightarrow> 's" where
  "state_of (Return r s) = s"
| "state_of (Throw e s) = s"

text \<open>
  Modelled from the spec: \<^verbatim>\<open>assert_unreached\<close> belongs to the test harness
  (\<^verbatim>\<open>testharness.js\<close>), which is not among the sources. The spec calls what it raises a
  fatal unreachable-assertion failure that terminates the current test at once, so the
  call throws and nothing after it runs.
\<close>

definition assert_unreached :: "string \<Rightarrow> 's \<Rightarrow> ('r, 's) completion" where
  "assert_unreached description s = Throw (AssertUnreached description) s"

text \<open>
  What the instance hands to a consumer, one constructor per call site:
  \<^verbatim>\<open>future.resolve(message.value)\<close> on the remote-description future at an address,
  the candidate handler and the data handler called with \<^verbatim>\<open>message.value\<close>, and
  \<^verbatim>\<open>this._remoteDoneFuture.resolve(message.value)\<close>.
\<close>

datatype delivery =
    DescriptionResolved nat jsval
  | CandidateHandled nat jsval
  | DataHandled nat jsval
  | DoneResolved jsval

text \<open>
  The fields of \<^verbatim>\<open>class Signaling\<close>. Futures are objects with identity: \<open>futures\<close> is
  the heap of the Future objects this instance has created, an address being an index,
  and the two future-valued fields hold addresses (\<open>None\<close> is \<^verbatim>\<open>null\<close>). A handler is a
  callback named by a number. \<open>delivered\<close> is the log of the hand-overs above.
\<close>

record signaling =
  pendingInboundMessages :: "message list"
  remoteDescriptionFuture :: "nat option"
  remoteCandidateHandler :: "nat option"
  remoteDataHandler :: "nat option"
  doneSent :: bool
  remoteDoneFuture :: nat
  futures :: "future list"
  delivered :: "delivery list"

text \<open>The constructor (the cleanup it registers only calls \<^verbatim>\<open>_close\<close>).\<close>

definition Signaling_new :: signaling where
  "Signaling_new =
     \<lparr>pendingInboundMessages = [],
      remoteDescriptionFuture = None,
      remoteCandidateHandler = None,
      remoteDataHandler = None,
      doneSent = False,
      remoteDoneFuture = 0,
      futures = [Future_new None],
      delivered = []\<rparr>"

text \<open>
  \<^verbatim>\<open>future.resolve(message.value)\<close> on the Future at an address. The value of a message
  is data and so no thenable.
\<close>

definition resolve_at :: "nat \<Rightarrow> jsval \<Rightarrow> 'a signaling_scheme \<Rightarrow> 'a signaling_scheme" where
  "resolve_at a v s = s\<lparr>futures := (futures s)[a := Future_resolve (Plain v) (futures s ! a)]\<rparr>"

definition handleRemoteDescription :: "message \<Rightarrow> 'a signaling_scheme \<Rightarrow> 'a signaling_scheme" where
  "handleRemoteDescription message s =
     (case remoteDescriptionFuture s of
        None \<Rightarrow> s\<lparr>pendingInboundMessages := pendingInboundMessages s @ [message]\<rparr>
      | Some future \<Rightarrow>
          (let s1 = s\<lparr>remoteDescriptionFuture := None\<rparr>;
               s2 = resolve_at future (value_of message) s1
           in s2\<lparr>delivered := delivered s2 @ [DescriptionResolved future (value_of message)]\<rparr>))"

text \<open>
  The two handlers are the caller's code. What a handler does when it is called is a
  parameter, \<open>body\<close>: it runs on the instance as the call found it, may change it by
  whatever calls it makes on it, and returns or throws. The call is logged before the
  body runs, and what the body throws is thrown by \<^verbatim>\<open>_handleRemoteCandidate\<close> and
  \<^verbatim>\<open>_handleData\<close> in turn.
\<close>

definition handleRemoteCandidate ::
    "('a signaling_scheme \<Rightarrow> (unit, 'a signaling_scheme) completion) \<Rightarrow> message \<Rightarrow>
     'a signaling_scheme \<Rightarrow> (unit, 'a signaling_scheme) completion" where
  "handleRemoteCandidate body message s =
     (case remoteCandidateHandler s of
        None \<Rightarrow> Return () (s\<lparr>pendingInboundMessages := pendingInboundMessages s @ [message]\<rparr>)
      | Some handler \<Rightarrow>
          body (s\<lparr>delivered := delivered s @ [CandidateHandled handler (value_of message)]\<rparr>))"

definition handleData ::
    "('a signaling_scheme \<Rightarrow> (unit, 'a signaling_scheme) completion) \<Rightarrow> message \<Rightarrow>
     'a signaling_scheme \<Rightarrow> (unit, 'a signaling_scheme) completion" where
  "handleData body message s =
     (case remoteDataHandler s of
        None \<Rightarrow> Return () (s\<lparr>pendingInboundMessages := pendingInboundMessages s @ [message]\<rparr>)
      | Some handler \<Rightarrow>
          body (s\<lparr>delivered := delivered s @ [DataHandled handler (value_of message)]\<rparr>))"

definition handleDone :: "message \<Rightarrow> 'a signaling_scheme \<Rightarrow> 'a signaling_scheme" where
  "handleDone message s =
     (let s1 = resolve_at (remoteDoneFuture s) (value_of message) s
      in s1\<lparr>delivered := delivered s1 @ [DoneResolved (value_of message)]\<rparr>)"

text \<open>
  \<^verbatim>\<open>_receiveMessage\<close>: the test \<^verbatim>\<open>'type' in message\<close>, which throws on what is no object;
  the default for a missing \<^verbatim>\<open>value\<close>; then the \<^verbatim>\<open>switch\<close>, whose cases compare with
  \<^verbatim>\<open>===\<close> and so match the four strings only. In the default case the template literal
  is evaluated first, and \<^verbatim>\<open>assert_unreached\<close> is called only if that did not throw.
\<close>

definition receiveMessage ::
    "('a signaling_scheme \<Rightarrow> (unit, 'a signaling_scheme) completion) \<Rightarrow> jsval \<Rightarrow>
     'a signaling_scheme \<Rightarrow> (unit, 'a signaling_scheme) completion" where
  "receiveMessage body raw s =
     (case as_message raw of
        Inl e \<Rightarrow> Throw e s
      | Inr message0 \<Rightarrow>
          (case msg_type message0 of
             None \<Rightarrow>
               assert_unreached ''(Signaling) Invalid message, did not contain a 'type' field'' s
           | Some t \<Rightarrow>
               (let message = (case msg_value message0 of
                                 None \<Rightarrow> message0\<lparr>msg_value := Some JNull\<rparr>
                               | Some _ \<Rightarrow> message0)
                in if t = JStr ''description'' then Return () (handleRemoteDescription message s)
                   else if t = JStr ''candidate'' then handleRemoteCandidate body message s
                   else if t = JStr ''data'' then handleData body message s
                   else if t = JStr ''done'' then Return () (handleDone message s)
                   else (case ToString t of
                           Inl e \<Rightarrow> Throw e s
                         | Inr printed \<Rightarrow>
                             assert_unreached (''(Signaling) Unknown message type: '' @ printed) s))))"

text \<open>
  \<^verbatim>\<open>_processPendingInboundMessages\<close>: the field is swapped for a new empty array, then the
  loop runs over the old array, which nothing changes any more; a throw ends the loop,
  and what the old array still held is in no array of the instance. \<open>bodies\<close> says what
  the handler does at each turn of the loop, should that turn call one; past its end the
  handler just returns.
\<close>

fun body_at :: "('s \<Rightarrow> (unit, 's) completion) list \<Rightarrow> 's \<Rightarrow> (unit, 's) completion" where
  "body_at [] = Return ()"
| "body_at (body # bodies) = body"

fun receive_each ::
    "('a signaling_scheme \<Rightarrow> (unit, 'a signaling_scheme) completion) list \<Rightarrow> message list \<Rightarrow>
     'a signaling_scheme \<Rightarrow> (unit, 'a signaling_scheme) completion" where
  "receive_each bodies [] s = Return () s"
| "receive_each bodies (message # messages) s =
     (case receiveMessage (body_at bodies) (object_of message) s of
        Throw e s' \<Rightarrow> Throw e s'
      | Return _ s' \<Rightarrow> receive_each (tl bodies) messages s')"

definition processPendingInboundMessages ::
    "('a signaling_scheme \<Rightarrow> (unit, 'a signaling_scheme) completion) list \<Rightarrow>
     'a signaling_scheme \<Rightarrow> (unit, 'a signaling_scheme) completion" where
  "processPendingInboundMessages bodies s =
     (let messages = pendingInboundMessages s
      in receive_each bodies messages (s\<lparr>pendingInboundMessages := []\<rparr>))"

text \<open>
  \<^verbatim>\<open>receiveRemoteDescription\<close>. The value returned is what the field holds \<^emph>\<open>after\<close> the
  pending messages have been processed: the address of a Future, or \<^verbatim>\<open>null\<close>.
\<close>

definition receiveRemoteDescription ::
    "('a signaling_scheme \<Rightarrow> (unit, 'a signaling_scheme) completion) list \<Rightarrow>
     'a signaling_scheme \<Rightarrow> (nat option, 'a signaling_scheme) completion" where
  "receiveRemoteDescription bodies s =
     (let s1 = (if remoteDescriptionFuture s = None
                then s\<lparr>futures := futures s @ [Future_new None],
                       remoteDescriptionFuture := Some (length (futures s))\<rparr>
                else s)
      in case processPendingInboundMessages bodies s1 of
           Throw e s2 \<Rightarrow> Throw e s2
         | Return _ s2 \<Rightarrow> Return (remoteDescriptionFuture s2) s2)"

text \<open>The two setters; the handler given is a callback or \<^verbatim>\<open>null\<close>.\<close>

definition set_onRemoteCandidate ::
    "nat option \<Rightarrow> ('a signaling_scheme \<Rightarrow> (unit, 'a signaling_scheme) completion) list \<Rightarrow>
     'a signaling_scheme \<Rightarrow> (unit, 'a signaling_scheme) completion" where
  "set_onRemoteCandidate handler bodies s =
     processPendingInboundMessages bodies (s\<lparr>remoteCandidateHandler := handler\<rparr>)"

definition set_onRemoteData ::
    "nat option \<Rightarrow> ('a signaling_scheme \<Rightarrow> (unit, 'a signaling_scheme) completion) list \<Rightarrow>
     'a signaling_scheme \<Rightarrow> (unit, 'a signaling_scheme) completion" where
  "set_onRemoteData handler bodies s =
     processPendingInboundMessages bodies (s\<lparr>remoteDataHandler := handler\<rparr>)"

text \<open>The outcome an awaiter of the Future at an address is handed, once it is settled.\<close>

definition resolved_value :: "'a signaling_scheme \<Rightarrow> nat \<Rightarrow> settlement option" where
  "resolved_value s a = (if a < length (futures s) then settled (futures s ! a) else None)"

subsection \<open>Histories of an instance\<close>

text \<open>
  The calls that reach an instance, in the order they happen: a message arriving, a wait
  for the remote description, a handler being set. Each carries what the handler does at
  every call the operation may make of it: the calls the handler makes on this instance
  before it returns, themselves such operations, and what it throws in the end, if it
  throws. After a throw the instance goes on from the state the throw left.
\<close>

datatype sig_op =
    ReceiveMessage jsval reaction
  | ReceiveRemoteDescription "reaction list"
  | SetOnRemoteCandidate "nat option" "reaction list"
  | SetOnRemoteData "nat option" "reaction list"
and reaction = Reaction "sig_op list" "error option"

fun invoke :: "reaction \<Rightarrow> 'a signaling_scheme \<Rightarrow> (unit, 'a signaling_scheme) completion"
  and sig_step :: "sig_op \<Rightarrow> 'a signaling_scheme \<Rightarrow> 'a signaling_scheme" where
  "invoke (Reaction ops thrown) s =
     (let s' = fold (\<lambda>x t. sig_step x t) ops s
      in case thrown of None \<Rightarrow> Return () s' | Some e \<Rightarrow> Throw e s')"
| "sig_step (ReceiveMessage raw r) s = state_of (receiveMessage (\<lambda>t. invoke r t) raw s)"
| "sig_step (ReceiveRemoteDescription rs) s =
     state_of (receiveRemoteDescription (map (\<lambda>r t. invoke r t) rs) s)"
| "sig_step (SetOnRemoteCandidate h rs) s =
     state_of (set_onRemoteCandidate h (map (\<lambda>r t. invoke r t) rs) s)"
| "sig_step (SetOnRemoteData h rs) s =
     state_of (set_onRemoteData h (map (\<lambda>r t. invoke r t) rs) s)"

definition run :: "sig_op list \<Rightarrow> 'a signaling_scheme \<Rightarrow> 'a signaling_scheme" where
  "run ops s = fold sig_step ops s"

definition is_kind :: "string \<Rightarrow> message \<Rightarrow> bool" where
  "is_kind k m = (msg_type m = Some (JStr k))"

text \<open>The payload an envelope carries: its \<^verbatim>\<open>value\<close>, \<^verbatim>\<open>null\<close> when it has none.\<close>

definition payload :: "message \<Rightarrow> jsval" where
  "payload m = (case msg_value m of None \<Rightarrow> JNull | Some v \<Rightarrow> v)"



definition queued :: "string \<Rightarrow> 'a signaling_scheme \<Rightarrow> jsval list" where
  "queued k s = map payload (filter (is_kind k) (pendingInboundMessages s))"

fun handed_over :: "string \<Rightarrow> delivery \<Rightarrow> jsval option" where
  "handed_over k (DescriptionResolved a v) = (if k = ''description'' then Some v else None)"
| "handed_over k (CandidateHandled h v) = (if k = ''candidate'' then Some v else None)"
| "handed_over k (DataHandled h v) = (if k = ''data'' then Some v else None)"
| "handed_over k (DoneResolved v) = (if k = ''done'' then Some v else None)"

definition handed :: "string \<Rightarrow> 'a signaling_scheme \<Rightarrow> jsval list" where
  "handed k s = List.map_filter (handed_over k) (delivered s)"




definition is_description :: "jsval \<Rightarrow> bool" where
  "is_description raw =
     (case as_message raw of Inl e \<Rightarrow> False | Inr m \<Rightarrow> is_kind ''description'' m)"

fun description_free :: "sig_op \<Rightarrow> bool"
  and description_free_reaction :: "reaction \<Rightarrow> bool" where
  "description_free (ReceiveMessage raw r) =
     (\<not> is_description raw \<and> description_free_reaction r)"
| "description_free (ReceiveRemoteDescription rs) = list_all (\<lambda>r. description_free_reaction r) rs"
| "description_free (SetOnRemoteCandidate h rs) = list_all (\<lambda>r. description_free_reaction r) rs"
| "description_free (SetOnRemoteData h rs) = list_all (\<lambda>r. description_free_reaction r) rs"
| "description_free_reaction (Reaction ops thrown) = list_all (\<lambda>x. description_free x) ops"

subsection \<open>Well-formed instances\<close>

text \<open>
  What holds of an instance between any two steps: the queue holds only envelopes of the
  three queueable kinds, with their value defaulted; the future fields point into the
  heap; a remote-description future that is waiting is still pending and unresolved, is
  not the remote-done future, and no description is queued behind it; and nothing is
  queued for a handler that is set.
\<close>

definition queue_kind :: "message \<Rightarrow> bool" where
  "queue_kind m = (is_kind ''description'' m \<or> is_kind ''candidate'' m \<or> is_kind ''data'' m)"

definition queueable :: "message \<Rightarrow> bool" where
  "queueable m = (queue_kind m \<and> msg_value m \<noteq> None)"

definition well_formed :: "'a signaling_scheme \<Rightarrow> bool" where
  "well_formed s =
     (list_all queueable (pendingInboundMessages s)
      \<and> remoteDoneFuture s < length (futures s)
      \<and> (case remoteDescriptionFuture s of
            None \<Rightarrow> True
          | Some a \<Rightarrow> a < length (futures s) \<and> a \<noteq> remoteDoneFuture s
                      \<and> settled (futures s ! a) = None \<and> \<not> alreadyResolved (futures s ! a)
                      \<and> queued ''description'' s = [])
      \<and> (remoteCandidateHandler s = None \<or> queued ''candidate'' s = [])
      \<and> (remoteDataHandler s = None \<or> queued ''data'' s = []))"

text \<open>
  Notions the proofs use: a property of instances that a handler body keeps; the message
  after the defaulting step of \<^verbatim>\<open>_receiveMessage\<close>; the four kinds; the state a call of
  \<^verbatim>\<open>_receiveMessage\<close> leaves when the handler, if called, returns at once; and the instance
  after the first statement of \<^verbatim>\<open>receiveRemoteDescription\<close>.
\<close>

definition keeps :: "('s \<Rightarrow> bool) \<Rightarrow> ('s \<Rightarrow> (unit, 's) completion) \<Rightarrow> bool" where
  "keeps I body = (\<forall>s. I s \<longrightarrow> I (state_of (body s)))"

definition defaulted :: "message \<Rightarrow> message" where
  "defaulted m = (case msg_value m of None \<Rightarrow> m\<lparr>msg_value := Some JNull\<rparr> | Some _ \<Rightarrow> m)"


definition receive_state :: "message \<Rightarrow> 'a signaling_scheme \<Rightarrow> 'a signaling_scheme" where
  "receive_state m s = state_of (receiveMessage (Return ()) (object_of m) s)"

definition allocated :: "'a signaling_scheme \<Rightarrow> 'a signaling_scheme" where
  "allocated s =
     (if remoteDescriptionFuture s = None
      then s\<lparr>futures := futures s @ [Future_new None],
             remoteDescriptionFuture := Some (length (futures s))\<rparr>
      else s)"

text \<open>An instance that is well formed and waits on the Future at an address.\<close>

definition waiting_on :: "nat \<Rightarrow> 'a signaling_scheme \<Rightarrow> bool" where
  "waiting_on f s = (well_formed s \<and> remoteDescriptionFuture s = Some f)"

subsection \<open>Envelopes and orders\<close>



text \<open>
  The object literals \<^verbatim>\<open>{type: ..., value: ...}\<close> that \<^verbatim>\<open>sendLocalDescription\<close>,
  \<^verbatim>\<open>sendLocalCandidate\<close>, \<^verbatim>\<open>sendData\<close> and \<^verbatim>\<open>_done\<close> pass to \<^verbatim>\<open>_sendMessage\<close>.
\<close>

definition description_msg :: "jsval \<Rightarrow> message" where
  "description_msg v = \<lparr>msg_type = Some (JStr ''description''), msg_value = Some v\<rparr>"

definition candidate_msg :: "jsval \<Rightarrow> message" where
  "candidate_msg v = \<lparr>msg_type = Some (JStr ''candidate''), msg_value = Some v\<rparr>"

definition data_msg :: "jsval \<Rightarrow> message" where
  "data_msg v = \<lparr>msg_type = Some (JStr ''data''), msg_value = Some v\<rparr>"

definition done_msg :: "jsval \<Rightarrow> message" where
  "done_msg v = \<lparr>msg_type = Some (JStr ''done''), msg_value = Some v\<rparr>"

text \<open>An arrival whose handler, should one be called, returns at once.\<close>

definition Arrival :: "message \<Rightarrow> sig_op" where
  "Arrival m = ReceiveMessage (object_of m) (Reaction [] None)"




text \<open>A history with two waits for the remote description before two descriptions arrive.\<close>

definition double_wait_ops :: "sig_op list" where
  "double_wait_ops =
     [ReceiveRemoteDescription [],
      ReceiveRemoteDescription [],
      Arrival (description_msg (JStr ''d1'')),
      Arrival (description_msg (JStr ''d2''))]"

text \<open>The value a call returned, if it returned.\<close>

fun returned :: "('r, 's) completion \<Rightarrow> 'r option" where
  "returned (Return r s) = Some r"
| "returned (Throw e s) = None"

section \<open>WebSocketSignaling\<close>

text \<open>
  The socket is the browser's. Of it the helper reads \<^verbatim>\<open>readyState\<close> (0 connecting, 1
  open, 2 closing, 3 closed) and calls \<^verbatim>\<open>send\<close>; \<open>sent\<close> lists the frames passed to
  \<^verbatim>\<open>send\<close>, in order.
\<close>

record websocket =
  readyState :: nat
  sent :: "string list"

record websocket_signaling = signaling +
  pendingOutboundMessages :: "message list"
  ws :: websocket

text \<open>\<^verbatim>\<open>new WebSocket(url)\<close>: connecting, nothing sent.\<close>

definition WebSocket_new :: websocket where
  "WebSocket_new = \<lparr>readyState = 0, sent = []\<rparr>"

text \<open>The constructor, for a URL the socket accepts.\<close>

definition WebSocketSignaling_new :: websocket_signaling where
  "WebSocketSignaling_new =
     signaling.extend Signaling_new
       (websocket_signaling.fields [] WebSocket_new)"

text \<open>
  \<^verbatim>\<open>_sendMessage\<close> of the class. \<^verbatim>\<open>JSON.stringify\<close> is the language's and is a parameter.
\<close>

definition WebSocketSignaling_sendMessage ::
    "(message \<Rightarrow> string) \<Rightarrow> message \<Rightarrow> websocket_signaling \<Rightarrow> websocket_signaling" where
  "WebSocketSignaling_sendMessage stringify message s =
     (if readyState (ws s) \<noteq> 1
      then s\<lparr>pendingOutboundMessages := pendingOutboundMessages s @ [message]\<rparr>
      else s\<lparr>ws := (ws s)\<lparr>sent := sent (ws s) @ [stringify message]\<rparr>\<rparr>)"

text \<open>
  The \<^verbatim>\<open>onopen\<close> handler iterates over the array that \<^verbatim>\<open>_sendMessage\<close> may push to, so the
  loop is over an index into the live array and need not end.
\<close>

partial_function (option) onopen_loop ::
    "(message \<Rightarrow> string) \<Rightarrow> nat \<Rightarrow> websocket_signaling \<Rightarrow> websocket_signaling option" where
  "onopen_loop stringify i s =
     (if i < length (pendingOutboundMessages s)
      then onopen_loop stringify (Suc i)
             (WebSocketSignaling_sendMessage stringify (pendingOutboundMessages s ! i) s)
      else Some s)"

definition ws_onopen :: "(message \<Rightarrow> string) \<Rightarrow> websocket_signaling \<Rightarrow> websocket_signaling option" where
  "ws_onopen stringify s = onopen_loop stringify 0 s"

text \<open>The open event: the browser sets \<^verbatim>\<open>readyState\<close> to 1, then calls the handler.\<close>

definition open_event :: "(message \<Rightarrow> string) \<Rightarrow> websocket_signaling \<Rightarrow> websocket_signaling option" where
  "open_event stringify s = ws_onopen stringify (s\<lparr>ws := (ws s)\<lparr>readyState := 1\<rparr>\<rparr>)"

definition send_all :: "(message \<Rightarrow> string) \<Rightarrow> message list \<Rightarrow> websocket_signaling \<Rightarrow> websocket_signaling" where
  "send_all stringify messages s = fold (WebSocketSignaling_sendMessage stringify) messages s"

text \<open>\<^verbatim>\<open>_done\<close>, inherited, with this class's \<^verbatim>\<open>_sendMessage\<close>.\<close>

definition WebSocketSignaling_done ::
    "(message \<Rightarrow> string) \<Rightarrow> jsval \<Rightarrow> websocket_signaling \<Rightarrow> nat \<times> websocket_signaling" where
  "WebSocketSignaling_done stringify result s =
     (let s1 = (if \<not> doneSent s
                then (WebSocketSignaling_sendMessage stringify (done_msg result) s)\<lparr>doneSent := True\<rparr>
                else s)
      in (remoteDoneFuture s1, s1))"

fun WebSocketSignaling_done_calls ::
    "(message \<Rightarrow> string) \<Rightarrow> jsval list \<Rightarrow> websocket_signaling \<Rightarrow> nat list \<times> websocket_signaling" where
  "WebSocketSignaling_done_calls stringify [] s = ([], s)"
| "WebSocketSignaling_done_calls stringify (result # results) s =
     (let (future, s1) = WebSocketSignaling_done stringify result s;
          (rest, s2) = WebSocketSignaling_done_calls stringify results s1
      in (future # rest, s2))"

section \<open>LoopbackSignaling\<close>

text \<open>
  Two loopback instances refer to each other through \<^verbatim>\<open>other\<close>, and sending on one calls
  \<^verbatim>\<open>_receiveMessage\<close> on the other with the very object: the instances live in a store,
  \<^verbatim>\<open>other\<close> holds an address or \<^verbatim>\<open>null\<close>. \<open>body\<close> is what the peer's handler does,
  should the call reach one.
\<close>

record loopback_signaling = signaling +
  other :: "nat option"

type_synonym store = "nat \<Rightarrow> loopback_signaling"

type_synonym handler_body = "loopback_signaling \<Rightarrow> (unit, loopback_signaling) completion"

definition LoopbackSignaling_new :: loopback_signaling where
  "LoopbackSignaling_new = signaling.extend Signaling_new (loopback_signaling.fields None)"

definition LoopbackSignaling_sendMessage ::
    "handler_body \<Rightarrow> nat \<Rightarrow> message \<Rightarrow> store \<Rightarrow> (unit, store) completion" where
  "LoopbackSignaling_sendMessage body this message st =
     (case other (st this) of
        None \<Rightarrow> Throw (TypeError ''Cannot read properties of null: _receiveMessage'') st
      | Some peer \<Rightarrow>
          (case receiveMessage body (object_of message) (st peer) of
             Throw e p \<Rightarrow> Throw e (st(peer := p))
           | Return _ p \<Rightarrow> Return () (st(peer := p))))"

text \<open>The inherited senders and \<^verbatim>\<open>_done\<close>, with this class's \<^verbatim>\<open>_sendMessage\<close>.\<close>

definition LoopbackSignaling_sendLocalDescription ::
    "handler_body \<Rightarrow> nat \<Rightarrow> jsval \<Rightarrow> store \<Rightarrow> (unit, store) completion" where
  "LoopbackSignaling_sendLocalDescription body this description st =
     LoopbackSignaling_sendMessage body this (description_msg description) st"

definition LoopbackSignaling_done ::
    "handler_body \<Rightarrow> nat \<Rightarrow> jsval \<Rightarrow> store \<Rightarrow> (nat, store) completion" where
  "LoopbackSignaling_done body this result st =
     (if \<not> doneSent (st this)
      then (case LoopbackSignaling_sendMessage body this (done_msg result) st of
              Throw e st1 \<Rightarrow> Throw e st1
            | Return _ st1 \<Rightarrow>
                Return (remoteDoneFuture (st1 this)) (st1(this := (st1 this)\<lparr>doneSent := True\<rparr>)))
      else Return (remoteDoneFuture (st this)) st)"

fun LoopbackSignaling_done_calls ::
    "handler_body \<Rightarrow> nat \<Rightarrow> jsval list \<Rightarrow> store \<Rightarrow> (nat list, store) completion" where
  "LoopbackSignaling_done_calls body this [] st = Return [] st"
| "LoopbackSignaling_done_calls body this (result # results) st =
     (case LoopbackSignaling_done body this result st of
        Throw e st1 \<Rightarrow> Throw e st1
      | Return future st1 \<Rightarrow>
          (case LoopbackSignaling_done_calls body this results st1 of
             Throw e st2 \<Rightarrow> Throw e st2
           | Return rest st2 \<Rightarrow> Return (future # rest) st2))"

text \<open>The loopback branch of \<^verbatim>\<open>cross_browser_test\<close>: two new instances, glued together.\<close>

definition loopback_pair :: store where
  "loopback_pair =
     (\<lambda>_. LoopbackSignaling_new)
       (0 := LoopbackSignaling_new\<lparr>other := Some 1\<rparr>,
        1 := LoopbackSignaling_new\<lparr>other := Some 0\<rparr>)"

section \<open>The completion override of \<^verbatim>\<open>cross_browser_test\<close>\<close>

text \<open>
  The test object is the harness's. The override reads its \<^verbatim>\<open>phase\<close>, \<^verbatim>\<open>status\<close> and
  \<^verbatim>\<open>message\<close> and the constants \<^verbatim>\<open>PASS\<close>, \<^verbatim>\<open>FAIL\<close>, \<^verbatim>\<open>phases.STARTED\<close> and
  \<^verbatim>\<open>phases.HAS_RESULT\<close>, which are fields here, and calls \<^verbatim>\<open>set_status\<close> and the original
  \<^verbatim>\<open>done\<close>; \<open>harness_calls\<close> lists these calls in order. The phases are compared by
  \<^verbatim>\<open><=\<close> and are integers; the statuses travel in messages and are compared by \<^verbatim>\<open>===\<close>.
\<close>

datatype harness_call = SetStatus number string | OriginalDone

record test =
  phase :: int
  status :: number
  message :: jsval
  PASS :: number
  FAIL :: number
  STARTED :: int
  HAS_RESULT :: int
  harness_calls :: "harness_call list"

text \<open>
  Modelled from the spec: \<^verbatim>\<open>set_status\<close> is a method of the harness's test object
  (\<^verbatim>\<open>testharness.js\<close>, not among the sources). The spec has the override downgrade the local
  result to failure with the remote's message attached, so the call records the status
  and the message as the test's result.
\<close>

definition set_status :: "number \<Rightarrow> string \<Rightarrow> test \<Rightarrow> test" where
  "set_status st msg t =
     t\<lparr>status := st, message := JStr msg, harness_calls := harness_calls t @ [SetStatus st msg]\<rparr>"

text \<open>\<^verbatim>\<open>done.call(test)\<close>: the harness's own completion, of which only the call is recorded.\<close>

definition original_done :: "test \<Rightarrow> test" where
  "original_done t = t\<lparr>harness_calls := harness_calls t @ [OriginalDone]\<rparr>"

text \<open>The object \<^verbatim>\<open>local\<close> of the override.\<close>

definition local_result :: "test \<Rightarrow> jsval" where
  "local_result t =
     (let status = (if phase t \<le> STARTED t then PASS t else status t)
      in JObj [(''status'', JNum status),
               (''message'', if status \<noteq> PASS t then message t else JNull)])"

text \<open>The override up to its \<^verbatim>\<open>await\<close>: \<^verbatim>\<open>local\<close>, and the Future that \<^verbatim>\<open>_done\<close> returns.\<close>

definition test_done_begin ::
    "(message \<Rightarrow> string) \<Rightarrow> test \<Rightarrow> websocket_signaling \<Rightarrow> jsval \<times> nat \<times> websocket_signaling" where
  "test_done_begin stringify t s =
     (let local = local_result t
      in (local, WebSocketSignaling_done stringify local s))"

text \<open>
  The override from its \<^verbatim>\<open>await\<close> on, once the Future is fulfilled with \<^verbatim>\<open>remote\<close>, which
  is whatever value the peer's \<^verbatim>\<open>done\<close> message carried. The \<^verbatim>\<open>&&\<close> reads \<^verbatim>\<open>remote.status\<close>
  only when the local status is \<^verbatim>\<open>PASS\<close>, and the read throws when \<^verbatim>\<open>remote\<close> is \<^verbatim>\<open>null\<close>.
  The template literal converts \<^verbatim>\<open>remote.message\<close> to a string before \<^verbatim>\<open>set_status\<close> is
  called; what the conversion throws is thrown by the override, and then neither
  \<^verbatim>\<open>set_status\<close> nor the original \<^verbatim>\<open>done\<close> is called.
\<close>

definition test_done_resume :: "jsval \<Rightarrow> jsval \<Rightarrow> test \<Rightarrow> (unit, test) completion" where
  "test_done_resume local remote t =
     (case get_prop local Status of
        Inl e \<Rightarrow> Throw e t
      | Inr local_status \<Rightarrow>
          if local_status = JNum (PASS t)
          then (case get_prop remote Status of
                  Inl e \<Rightarrow> Throw e t
                | Inr remote_status \<Rightarrow>
                    if remote_status \<noteq> JNum (PASS t)
                    then (case get_prop remote Message of
                            Inl e \<Rightarrow> Throw e t
                          | Inr remote_message \<Rightarrow>
                              (case ToString remote_message of
                                 Inl e \<Rightarrow> Throw e t
                               | Inr printed \<Rightarrow>
                                   (let t1 = set_status (FAIL t) (''(Remote) '' @ printed) t;
                                        t2 = t1\<lparr>phase := HAS_RESULT t1\<rparr>
                                    in Return () (original_done t2))))
                    else Return () (original_done t))
          else Return () (original_done t))"

text \<open>The status the override computes for \<^verbatim>\<open>local\<close>.\<close>

definition local_status :: "test \<Rightarrow> number" where
  "local_status t = (if phase t \<le> STARTED t then PASS t else status t)"

text \<open>A test that is still running, and one that has failed.\<close>

definition running_test :: test where
  "running_test =
     \<lparr>phase = 1, status = Number ''3'', message = JNull, PASS = Number ''0'', FAIL = Number ''1'',
      STARTED = 1, HAS_RESULT = 2, harness_calls = []\<rparr>"

definition failed_test :: test where
  "failed_test =
     \<lparr>phase = 2, status = Number ''1'', message = JStr ''assert_equals failed'',
      PASS = Number ''0'', FAIL = Number ''1'', STARTED = 1, HAS_RESULT = 2, harness_calls = []\<rparr>"

section \<open>exchangeDescriptions over a loopback pair\<close>

text \<open>
  The peer connection is the browser's: \<^verbatim>\<open>createOffer\<close> and \<^verbatim>\<open>createAnswer\<close> resolve to the
  descriptions given here as fields, the two setters resolve, and \<open>pc_calls\<close> lists the
  calls made, in order.
\<close>

datatype pc_call =
    CreateOffer
  | CreateAnswer
  | SetLocalDescription jsval
  | SetRemoteDescription jsval

record peer_connection =
  created_offer :: jsval
  created_answer :: jsval
  pc_calls :: "pc_call list"

definition pc_call :: "pc_call \<Rightarrow> peer_connection \<Rightarrow> peer_connection" where
  "pc_call c p = p\<lparr>pc_calls := pc_calls p @ [c]\<rparr>"

text \<open>
  \<^verbatim>\<open>exchangeDescriptions\<close> is an async function: it runs from one \<^verbatim>\<open>await\<close> to the next. A
  point says which \<^verbatim>\<open>await\<close> the call is suspended at, with the local variables that are
  live there; at \<open>AwaitRemoteDescription\<close> that is the value \<^verbatim>\<open>receiveRemoteDescription\<close>
  returned, the address of a Future or \<^verbatim>\<open>null\<close>.
\<close>

datatype exchange_point =
    Start
  | AwaitCreateOffer
  | AwaitSetLocalOffer jsval
  | AwaitRemoteDescription "nat option"
  | AwaitSetRemoteDescription
  | AwaitCreateAnswer
  | AwaitSetLocalAnswer jsval
  | Finished
  | Failed error

record exchange =
  signaling_at :: nat
  offering :: bool
  pc :: peer_connection
  point :: exchange_point

type_synonym exchange_state = "exchange \<times> store"

text \<open>
  \<^verbatim>\<open>this.receiveRemoteDescription()\<close> on the instance at an address of the store; \<open>bodies\<close>
  is what its handlers do, should the replay call one.
\<close>

definition LoopbackSignaling_receiveRemoteDescription ::
    "handler_body list \<Rightarrow> nat \<Rightarrow> store \<Rightarrow> (nat option, store) completion" where
  "LoopbackSignaling_receiveRemoteDescription bodies a st =
     (case receiveRemoteDescription bodies (st a) of
        Throw e s \<Rightarrow> Throw e (st(a := s))
      | Return r s \<Rightarrow> Return r (st(a := s)))"

definition wait_for_remote :: "handler_body list \<Rightarrow> exchange \<Rightarrow> store \<Rightarrow> exchange_state" where
  "wait_for_remote bodies x st =
     (case LoopbackSignaling_receiveRemoteDescription bodies (signaling_at x) st of
        Throw e st1 \<Rightarrow> (x\<lparr>point := Failed e\<rparr>, st1)
      | Return r st1 \<Rightarrow> (x\<lparr>point := AwaitRemoteDescription r\<rparr>, st1))"

definition apply_remote :: "jsval \<Rightarrow> exchange \<Rightarrow> exchange" where
  "apply_remote description x =
     x\<lparr>pc := pc_call (SetRemoteDescription description) (pc x), point := AwaitSetRemoteDescription\<rparr>"

text \<open>
  One step of the call: from the point it is suspended at to the next \<^verbatim>\<open>await\<close>. An
  \<^verbatim>\<open>await\<close> of a pending Future stays where it is; an \<^verbatim>\<open>await\<close> of \<^verbatim>\<open>null\<close> goes on with
  \<^verbatim>\<open>null\<close>. \<open>body\<close> and \<open>bodies\<close> are what the handlers of the two instances do, should a
  call reach one.
\<close>

definition exchange_step ::
    "handler_body \<Rightarrow> handler_body list \<Rightarrow> exchange \<Rightarrow> store \<Rightarrow> exchange_state" where
  "exchange_step body bodies x st =
     (case point x of
        Start \<Rightarrow>
          if offering x
          then (x\<lparr>pc := pc_call CreateOffer (pc x), point := AwaitCreateOffer\<rparr>, st)
          else wait_for_remote bodies x st
      | AwaitCreateOffer \<Rightarrow>
          (let offer = created_offer (pc x)
           in (x\<lparr>pc := pc_call (SetLocalDescription offer) (pc x),
                 point := AwaitSetLocalOffer offer\<rparr>, st))
      | AwaitSetLocalOffer offer \<Rightarrow>
          (case LoopbackSignaling_sendLocalDescription body (signaling_at x) offer st of
             Throw e st1 \<Rightarrow> (x\<lparr>point := Failed e\<rparr>, st1)
           | Return _ st1 \<Rightarrow> wait_for_remote bodies x st1)
      | AwaitRemoteDescription r \<Rightarrow>
          (case r of
             None \<Rightarrow> (apply_remote JNull x, st)
           | Some future \<Rightarrow>
               (case resolved_value (st (signaling_at x)) future of
                  None \<Rightarrow> (x, st)
                | Some (Fulfilled description) \<Rightarrow> (apply_remote description x, st)
                | Some (Rejected r) \<Rightarrow> (x\<lparr>point := Failed (Rejection r)\<rparr>, st)))
      | AwaitSetRemoteDescription \<Rightarrow>
          if \<not> offering x
          then (x\<lparr>pc := pc_call CreateAnswer (pc x), point := AwaitCreateAnswer\<rparr>, st)
          else (x\<lparr>point := Finished\<rparr>, st)
      | AwaitCreateAnswer \<Rightarrow>
          (let answer = created_answer (pc x)
           in (x\<lparr>pc := pc_call (SetLocalDescription answer) (pc x),
                 point := AwaitSetLocalAnswer answer\<rparr>, st))
      | AwaitSetLocalAnswer answer \<Rightarrow>
          (case LoopbackSignaling_sendLocalDescription body (signaling_at x) answer st of
             Throw e st1 \<Rightarrow> (x\<lparr>point := Failed e\<rparr>, st1)
           | Return _ st1 \<Rightarrow> (x\<lparr>point := Finished\<rparr>, st1))
      | Finished \<Rightarrow> (x, st)
      | Failed e \<Rightarrow> (x, st))"

text \<open>
  Two calls, the offerer's on the instance at address 0 and the answerer's on the one at
  address 1, and a schedule that says whose turn it is.
\<close>

datatype role = Offerer | Answerer

record world =
  signalings :: store
  offerer :: exchange
  answerer :: exchange

definition world_step :: "handler_body \<Rightarrow> handler_body list \<Rightarrow> role \<Rightarrow> world \<Rightarrow> world" where
  "world_step body bodies r w =
     (case r of
        Offerer \<Rightarrow>
          (let (x, st) = exchange_step body bodies (offerer w) (signalings w)
           in w\<lparr>offerer := x, signalings := st\<rparr>)
      | Answerer \<Rightarrow>
          (let (x, st) = exchange_step body bodies (answerer w) (signalings w)
           in w\<lparr>answerer := x, signalings := st\<rparr>))"

definition run_schedule :: "handler_body \<Rightarrow> handler_body list \<Rightarrow> role list \<Rightarrow> world \<Rightarrow> world" where
  "run_schedule body bodies schedule w = fold (world_step body bodies) schedule w"

definition new_pc :: "jsval \<Rightarrow> jsval \<Rightarrow> peer_connection" where
  "new_pc offer answer = \<lparr>created_offer = offer, created_answer = answer, pc_calls = []\<rparr>"

definition loopback_world :: "jsval \<Rightarrow> jsval \<Rightarrow> world" where
  "loopback_world offer answer =
     \<lparr>signalings = loopback_pair,
      offerer = \<lparr>signaling_at = 0, offering = True, pc = new_pc offer JUndefined, point = Start\<rparr>,
      answerer = \<lparr>signaling_at = 1, offering = False, pc = new_pc JUndefined answer, point = Start\<rparr>\<rparr>"

definition answerer_first :: "role list" where
  "answerer_first =
     [Answerer, Offerer, Offerer, Offerer, Answerer, Answerer, Answerer, Answerer, Offerer, Offerer]"

definition offer_first :: "role list" where
  "offer_first = [Offerer, Offerer, Offerer, Answerer, Answerer]"

text \<open>A frame format for the examples: the payload of the message, if it is a string.\<close>

definition payload_text :: "message \<Rightarrow> string" where
  "payload_text m = (case value_of m of JStr frame \<Rightarrow> frame | _ \<Rightarrow> [])"

text \<open>
  A remote result whose message cannot be converted to a string, as
  \<^verbatim>\<open>{"status": 1, "message": {"toString": 5}}\<close> parses.
\<close>

definition unprintable_result :: jsval where
  "unprintable_result =
     JObj [(''status'', JNum (Number ''1'')),
           (''message'', JObj [(''toString'', JNum (Number ''5''))])]"

section \<open>Properties\<close>

subsection \<open>Future\<close>

lemma coherent_pending: "coherent pending_promise"
  by (simp add: coherent_def pending_promise_def)

lemma resolution_immediate:
  "settled f = None \<Longrightarrow> immediate c = Some out \<Longrightarrow>
   resolution c f = f\<lparr>settled := Some out, reactions := [],
                      jobs := jobs f @ map (\<lambda>w. (w, out)) (reactions f)\<rparr>"
  by (cases "(c, f)" rule: resolution.cases) (auto simp: settle_def)

lemma resolution_thenable:
  "immediate c = None \<Longrightarrow> resolution c f = f\<lparr>following := True\<rparr>"
  by (cases "(c, f)" rule: resolution.cases) auto

lemma coherent_resolution:
  assumes "coherent f" "settled f = None"
  shows "coherent (resolution c (f\<lparr>alreadyResolved := True, following := False\<rparr>))"
proof (cases "immediate c")
  case None
  with assms show ?thesis
    by (simp add: resolution_thenable coherent_def)
next
  case (Some out)
  with assms show ?thesis
    by (simp add: resolution_immediate coherent_def list_all_iff)
qed

lemma future_same:
  "alreadyResolved f \<Longrightarrow> f\<lparr>alreadyResolved := True\<rparr> = f"
  "\<not> following f \<Longrightarrow> f\<lparr>following := False\<rparr> = f"
  "alreadyResolved f \<Longrightarrow> f\<lparr>alreadyResolved := True, following := b\<rparr> = f\<lparr>following := b\<rparr>"
  by (cases f, simp)+

lemma Future_call_unresolved:
  "\<not> alreadyResolved f \<Longrightarrow> coherent f \<Longrightarrow>
   Future_call c f = resolution c (f\<lparr>alreadyResolved := True, following := False\<rparr>)
   \<and> settled f = None"
  by (cases "settled f") (auto simp: Future_call_def coherent_def future_same)

lemma Future_callback_following:
  "following f \<Longrightarrow> coherent f \<Longrightarrow>
   Future_callback c f = resolution c (f\<lparr>alreadyResolved := True, following := False\<rparr>)
   \<and> settled f = None"
proof -
  assume "following f" "coherent f"
  then have "settled f = None" "alreadyResolved f"
    by (cases "settled f"; simp add: coherent_def)+
  with \<open>following f\<close> show ?thesis
    by (simp add: Future_callback_def future_same(3))
qed

lemma coherent_op: "coherent f \<Longrightarrow> coherent (Future_op x f)"
proof (cases x)
  case (Call c)
  assume f: "coherent f"
  show ?thesis
  proof (cases "alreadyResolved f")
    case True
    with f Call show ?thesis by (simp add: Future_call_def)
  next
    case False
    from Future_call_unresolved [OF False f, of c] f Call show ?thesis
      by (simp add: coherent_resolution)
  qed
next
  case (Await w)
  assume "coherent f"
  with Await show ?thesis
    by (auto simp: Future_await_def coherent_def split: option.splits)
next
  case (Callback c)
  assume f: "coherent f"
  show ?thesis
  proof (cases "following f")
    case False
    with f Callback show ?thesis by (simp add: Future_callback_def)
  next
    case True
    from Future_callback_following [OF True f, of c] f Callback show ?thesis
      by (simp add: coherent_resolution)
  qed
qed

lemma coherent_fold: "coherent f \<Longrightarrow> coherent (fold Future_op ops f)"
  by (induction ops arbitrary: f) (simp_all add: coherent_op)

text \<open>A settled promise is changed by an await only, which queues a job at once.\<close>

lemma settled_ignores:
  assumes "coherent f" "settled f = Some out"
  shows "Future_call c f = f" "Future_callback c f = f"
    "Future_await w f = f\<lparr>jobs := jobs f @ [(w, out)]\<rparr>"
  using assms by (simp_all add: coherent_def Future_call_def Future_callback_def Future_await_def)

lemma settled_stays:
  "coherent f \<Longrightarrow> settled f = Some out \<Longrightarrow> settled (fold Future_op ops f) = Some out"
proof (induction ops arbitrary: f)
  case Nil
  then show ?case by simp
next
  case (Cons x ops)
  have "settled (Future_op x f) = Some out"
    using Cons.prems by (cases x) (simp_all add: settled_ignores)
  with Cons.IH [OF coherent_op [OF Cons.prems(1)]] show ?case by simp
qed

lemma settled_reported:
  "coherent f \<Longrightarrow> following f \<Longrightarrow> settled (fold Future_op ops f) = reported ops"
proof (induction ops arbitrary: f)
  case Nil
  then show ?case by (cases "settled f") (simp_all add: coherent_def)
next
  case (Cons x ops)
  note co = coherent_op [OF Cons.prems(1), of x]
  show ?case
  proof (cases x)
    case (Call c)
    with Cons.prems have "Future_op x f = f"
      by (cases "settled f") (simp_all add: coherent_def Future_call_def)
    with Cons.IH [OF Cons.prems] Call show ?thesis by simp
  next
    case (Await w)
    with Cons.prems have "following (Future_op x f)"
      by (cases "settled f") (simp_all add: coherent_def Future_await_def)
    with Cons.IH [OF co] Await show ?thesis by simp
  next
    case (Callback c)
    note cb = Future_callback_following [OF Cons.prems(2,1), of c]
    show ?thesis
    proof (cases "immediate c")
      case None
      with cb have "following (Future_op x f)"
        by (simp add: Callback resolution_thenable)
      with Cons.IH [OF co] Callback None show ?thesis by simp
    next
      case (Some out)
      with cb have "settled (Future_op x f) = Some out"
        by (simp add: Callback resolution_immediate)
      with settled_stays [OF co] Callback Some show ?thesis by simp
    qed
  qed
qed

lemma settled_outcome:
  "coherent f \<Longrightarrow> \<not> alreadyResolved f \<Longrightarrow> settled (fold Future_op ops f) = outcome ops"
proof (induction ops arbitrary: f)
  case Nil
  then show ?case by (cases "settled f") (simp_all add: coherent_def)
next
  case (Cons x ops)
  note co = coherent_op [OF Cons.prems(1), of x]
  show ?case
  proof (cases x)
    case (Call c)
    note cl = Future_call_unresolved [OF Cons.prems(2,1), of c]
    show ?thesis
    proof (cases "immediate c")
      case None
      with cl have "following (Future_op x f)"
        by (simp add: Call resolution_thenable)
      with settled_reported [OF co] Call None show ?thesis by simp
    next
      case (Some out)
      with cl have "settled (Future_op x f) = Some out"
        by (simp add: Call resolution_immediate)
      with settled_stays [OF co] Call Some show ?thesis by simp
    qed
  next
    case (Await w)
    with Cons.prems have "\<not> alreadyResolved (Future_op x f)"
      by (cases "settled f") (simp_all add: coherent_def Future_await_def)
    with Cons.IH [OF co] Await show ?thesis by simp
  next
    case (Callback c)
    with Cons.prems have "Future_op x f = f"
      by (cases "settled f") (simp_all add: coherent_def Future_callback_def)
    with Cons.IH [OF Cons.prems] Callback show ?thesis by simp
  qed
qed

text \<open>Later calls of the two methods are ignored.\<close>

lemma resolved_stays: "alreadyResolved f \<Longrightarrow> alreadyResolved (Future_op x f)"
proof (cases x)
  case (Callback c)
  assume "alreadyResolved f"
  then have "alreadyResolved (resolution c (f\<lparr>following := False\<rparr>))"
    by (cases "(c, f)" rule: resolution.cases) (simp_all add: settle_def split: option.splits)
  with \<open>alreadyResolved f\<close> Callback show ?thesis by (simp add: Future_callback_def)
qed (simp_all add: Future_call_def Future_await_def split: option.splits)

lemma resolved_ignores_calls:
  "alreadyResolved f \<Longrightarrow>
   fold Future_op ops f = fold Future_op (filter (\<lambda>x. \<not> is_call x) ops) f"
proof (induction ops arbitrary: f)
  case Nil
  then show ?case by simp
next
  case (Cons x ops)
  show ?case
  proof (cases x)
    case (Call c)
    with Cons.prems have "Future_op x f = f" by (simp add: Future_call_def)
    with Cons.IH [OF Cons.prems] Call show ?thesis by simp
  next
    case (Await w)
    with Cons.IH [OF resolved_stays [OF Cons.prems, of x]] show ?thesis by simp
  next
    case (Callback c)
    with Cons.IH [OF resolved_stays [OF Cons.prems, of x]] show ?thesis by simp
  qed
qed

lemma first_call_decides:
  "coherent f \<Longrightarrow> \<not> alreadyResolved f \<Longrightarrow>
   fold Future_op ops f = fold Future_op (first_call_only ops) f"
proof (induction ops arbitrary: f)
  case Nil
  then show ?case by simp
next
  case (Cons x ops)
  note co = coherent_op [OF Cons.prems(1), of x]
  show ?case
  proof (cases x)
    case (Call c)
    from Cons.prems have "alreadyResolved (Future_op x f)"
      by (cases "(c, f)" rule: resolution.cases)
         (simp_all add: Call Future_call_def settle_def split: option.splits)
    from resolved_ignores_calls [OF this, of ops] Call show ?thesis by simp
  next
    case (Await w)
    with Cons.prems have "\<not> alreadyResolved (Future_op x f)"
      by (cases "settled f") (simp_all add: coherent_def Future_await_def)
    with Cons.IH [OF co] Await show ?thesis by simp
  next
    case (Callback c)
    with Cons.prems have "Future_op x f = f"
      by (cases "settled f") (simp_all add: coherent_def Future_callback_def)
    with Cons.IH [OF Cons.prems] Callback show ?thesis by simp
  qed
qed

text \<open>Who awaited is handed the outcome, once per await and in the order of the awaits.\<close>

lemma awaiters_of_append: "awaiters_of (xs @ ys) = awaiters_of xs @ awaiters_of ys"
  by (induction xs rule: awaiters_of.induct) simp_all

lemma awaiters_served:
  "(case settled (fold Future_op ops pending_promise) of
      None \<Rightarrow> jobs (fold Future_op ops pending_promise) = []
            \<and> reactions (fold Future_op ops pending_promise) = awaiters_of ops
    | Some out \<Rightarrow>
        jobs (fold Future_op ops pending_promise) = map (\<lambda>w. (w, out)) (awaiters_of ops)
        \<and> reactions (fold Future_op ops pending_promise) = [])"
proof (induction ops rule: rev_induct)
  case Nil
  show ?case by (simp add: pending_promise_def)
next
  case (snoc x ops)
  define f where "f = fold Future_op ops pending_promise"
  have co: "coherent f"
    unfolding f_def by (rule coherent_fold [OF coherent_pending])
  note IH = snoc.IH [folded f_def]
  have step: "fold Future_op (ops @ [x]) pending_promise = Future_op x f"
    by (simp add: f_def)
  show ?case
  proof (cases "settled f")
    case (Some out)
    with IH co show ?thesis
      unfolding step
      by (cases x) (simp_all add: settled_ignores awaiters_of_append)
  next
    case None
    note pending = this
    have res: "(case settled (resolution c (f\<lparr>alreadyResolved := True, following := False\<rparr>)) of
        None \<Rightarrow> jobs (resolution c (f\<lparr>alreadyResolved := True, following := False\<rparr>)) = []
              \<and> reactions (resolution c (f\<lparr>alreadyResolved := True, following := False\<rparr>))
                  = awaiters_of ops
      | Some out \<Rightarrow>
          jobs (resolution c (f\<lparr>alreadyResolved := True, following := False\<rparr>))
            = map (\<lambda>w. (w, out)) (awaiters_of ops)
          \<and> reactions (resolution c (f\<lparr>alreadyResolved := True, following := False\<rparr>)) = [])"
      for c
      using IH pending
      by (cases "immediate c") (simp_all add: resolution_immediate resolution_thenable)
    show ?thesis
    proof (cases x)
      case (Call c)
      show ?thesis
      proof (cases "alreadyResolved f")
        case True
        with IH pending Call show ?thesis
          unfolding step by (simp add: Future_call_def awaiters_of_append)
      next
        case False
        from Future_call_unresolved [OF False co, of c] Call
        have "Future_op x f = resolution c (f\<lparr>alreadyResolved := True, following := False\<rparr>)"
          by simp
        with res [of c] Call show ?thesis
          unfolding step by (simp add: awaiters_of_append split: option.splits)
      qed
    next
      case (Await w)
      with IH pending show ?thesis
        unfolding step by (simp add: Future_await_def awaiters_of_append)
    next
      case (Callback c)
      show ?thesis
      proof (cases "following f")
        case False
        with IH pending Callback show ?thesis
          unfolding step by (simp add: Future_callback_def awaiters_of_append)
      next
        case True
        from Future_callback_following [OF True co, of c] Callback
        have "Future_op x f = resolution c (f\<lparr>alreadyResolved := True, following := False\<rparr>)"
          by simp
        with res [of c] Callback show ?thesis
          unfolding step by (simp add: awaiters_of_append split: option.splits)
      qed
    qed
  qed
qed

lemma fold_calls_as_ops: "fold Future_call cs f = fold Future_op (map Call cs) f"
  by (induction cs arbitrary: f) simp_all

lemma awaiters_of_map_Call: "awaiters_of (map Call cs @ ops) = awaiters_of ops"
  by (induction cs) simp_all

lemma Future_new_as_ops:
  "fold Future_op ops (Future_new executor) =
   fold Future_op (executor_calls executor @ ops) pending_promise"
  by (cases executor) (simp_all add: Future_new_def executor_calls_def fold_calls_as_ops)

text \<open>
  C8. Whatever calls of resolve and reject (those of an executor first), awaits and
  reports of a followed thenable a Future sees, in whatever order: every call of resolve
  or reject after the first changes nothing; the Future is settled exactly as the
  history's outcome says, which is nothing without a call, the first call's own outcome
  when that call is a reject or a resolve with something that is no thenable, and
  otherwise what the thenable reports after the call; every awaiter, before or after the
  settlement, is handed that one outcome, once per await and in the order of the awaits,
  and stays suspended until then; and a settled Future ignores every further call and
  report, an await of it queueing its job at once.
\<close>

theorem Future_first_call_decides:
  "(let history = executor_calls executor @ ops;
        f = fold Future_op ops (Future_new executor)
    in f = fold Future_op (first_call_only history) pending_promise
     \<and> settled f = outcome history
     \<and> jobs f = (case settled f of None \<Rightarrow> [] | Some out \<Rightarrow> map (\<lambda>w. (w, out)) (awaiters_of ops))
     \<and> reactions f = (case settled f of None \<Rightarrow> awaiters_of ops | Some out \<Rightarrow> [])
     \<and> (\<forall>out c w. settled f = Some out \<longrightarrow>
            Future_call c f = f \<and> Future_callback c f = f
            \<and> Future_await w f = f\<lparr>jobs := jobs f @ [(w, out)]\<rparr>))"
proof -
  define history where "history = executor_calls executor @ ops"
  define f where "f = fold Future_op ops (Future_new executor)"
  have f: "f = fold Future_op history pending_promise"
    unfolding f_def history_def by (rule Future_new_as_ops)
  have fresh: "\<not> alreadyResolved pending_promise"
    by (simp add: pending_promise_def)
  have co: "coherent f"
    unfolding f by (rule coherent_fold [OF coherent_pending])
  have 1: "f = fold Future_op (first_call_only history) pending_promise"
    unfolding f by (rule first_call_decides [OF coherent_pending fresh])
  have 2: "settled f = outcome history"
    unfolding f by (rule settled_outcome [OF coherent_pending fresh])
  have aw: "awaiters_of history = awaiters_of ops"
    by (simp add: history_def executor_calls_def awaiters_of_map_Call)
  have 3: "jobs f = (case settled f of None \<Rightarrow> [] | Some out \<Rightarrow> map (\<lambda>w. (w, out)) (awaiters_of ops))"
    using awaiters_served [of history] unfolding f aw by (simp split: option.splits)
  have 4: "reactions f = (case settled f of None \<Rightarrow> awaiters_of ops | Some out \<Rightarrow> [])"
    using awaiters_served [of history] unfolding f aw by (simp split: option.splits)
  have 5: "\<forall>out c w. settled f = Some out \<longrightarrow>
            Future_call c f = f \<and> Future_callback c f = f
            \<and> Future_await w f = f\<lparr>jobs := jobs f @ [(w, out)]\<rparr>"
    using settled_ignores [OF co] by blast
  from 1 2 3 4 5 show ?thesis
    unfolding Let_def f_def history_def by blast
qed

theorem Future_first_call_decides_example:
  "settled (fold Future_op
      [Await 1, Call (Resolve (Plain (JStr ''a''))), Call (Reject (Plain (JStr ''late''))), Await 2]
      (Future_new None)) = Some (Fulfilled (JStr ''a''))
   \<and> jobs (fold Future_op
      [Await 1, Call (Resolve (Plain (JStr ''a''))), Call (Reject (Plain (JStr ''late''))), Await 2]
      (Future_new None)) = [(1, Fulfilled (JStr ''a'')), (2, Fulfilled (JStr ''a''))]
   \<and> Future_call (Reject (Plain (JStr ''again'')))
        (fold Future_op
          [Await 1, Call (Resolve (Plain (JStr ''a''))), Call (Reject (Plain (JStr ''late''))), Await 2]
          (Future_new None))
      = fold Future_op
          [Await 1, Call (Resolve (Plain (JStr ''a''))), Call (Reject (Plain (JStr ''late''))), Await 2]
          (Future_new None)"
proof -
  define f where "f = fold Future_op
      [Await 1, Call (Resolve (Plain (JStr ''a''))), Call (Reject (Plain (JStr ''late''))), Await 2]
      (Future_new None)"
  note all = Future_first_call_decides
    [of None "[Await 1, Call (Resolve (Plain (JStr ''a''))), Call (Reject (Plain (JStr ''late''))), Await 2]",
     unfolded Let_def, folded f_def]
  from all have "settled f = outcome (executor_calls None @
      [Await 1, Call (Resolve (Plain (JStr ''a''))), Call (Reject (Plain (JStr ''late''))), Await 2])"
    by (rule conjunct2 [THEN conjunct1])
  then have 1: "settled f = Some (Fulfilled (JStr ''a''))"
    by (simp add: executor_calls_def)
  from all have "jobs f = (case settled f of None \<Rightarrow> [] | Some out \<Rightarrow> map (\<lambda>w. (w, out))
      (awaiters_of [Await 1, Call (Resolve (Plain (JStr ''a''))), Call (Reject (Plain (JStr ''late''))), Await 2]))"
    by (rule conjunct2 [THEN conjunct2, THEN conjunct1])
  with 1 have 2: "jobs f = [(1, Fulfilled (JStr ''a'')), (2, Fulfilled (JStr ''a''))]"
    by simp
  from all have "\<forall>out c w. settled f = Some out \<longrightarrow>
            Future_call c f = f \<and> Future_callback c f = f
            \<and> Future_await w f = f\<lparr>jobs := jobs f @ [(w, out)]\<rparr>"
    by (rule conjunct2 [THEN conjunct2, THEN conjunct2, THEN conjunct2])
  with 1 have 3: "Future_call (Reject (Plain (JStr ''again''))) f = f"
    by blast
  from 1 2 3 show ?thesis
    unfolding f_def by blast
qed

text \<open>
  The first call of resolve does not settle the Future with its argument when the
  argument is a thenable: the Future stays pending, a later reject is ignored, and the
  Future ends rejected when the thenable reports a rejection, which is what its awaiter
  is handed.
\<close>

theorem resolve_with_thenable_example:
  "settled (fold Future_op [Await 1, Call (Resolve (Thenable 0))] (Future_new None)) = None
   \<and> settled (fold Future_op
        [Await 1, Call (Resolve (Thenable 0)), Call (Reject (Plain (JStr ''late''))),
         Callback (Reject (Plain (JStr ''inner'')))]
        (Future_new None)) = Some (Rejected (Given (Plain (JStr ''inner''))))
   \<and> jobs (fold Future_op
        [Await 1, Call (Resolve (Thenable 0)), Call (Reject (Plain (JStr ''late''))),
         Callback (Reject (Plain (JStr ''inner'')))]
        (Future_new None)) = [(1, Rejected (Given (Plain (JStr ''inner''))))]"
  by code_simp

subsection \<open>The instance stays well formed\<close>

lemma wf_new: "well_formed Signaling_new"
  by (simp add: well_formed_def Signaling_new_def queued_def Future_new_def pending_promise_def)

lemma as_message_object_of [simp]: "as_message (object_of m) = Inr m"
  by (cases "msg_type m"; cases "msg_value m") (simp_all add: object_of_def)

lemma defaulted_simps [simp]:
  "msg_type (defaulted m) = msg_type m"
  "msg_value (defaulted m) = Some (payload m)"
  "payload (defaulted m) = payload m"
  "value_of (defaulted m) = payload m"
  "is_kind k (defaulted m) = is_kind k m"
  by (simp_all add: defaulted_def payload_def value_of_def is_kind_def split: option.splits)

lemma receiveMessage_not_object:
  "as_message raw = Inl e \<Longrightarrow> receiveMessage body raw s = Throw e s"
  by (simp add: receiveMessage_def)

lemma receiveMessage_object:
  "as_message raw = Inr m \<Longrightarrow> receiveMessage body raw s = receiveMessage body (object_of m) s"
  by (simp add: receiveMessage_def)

lemma receiveMessage_no_type:
  "msg_type m = None \<Longrightarrow>
   receiveMessage body (object_of m) s =
     Throw (AssertUnreached ''(Signaling) Invalid message, did not contain a 'type' field'') s"
  by (simp add: receiveMessage_def assert_unreached_def)

lemma receiveMessage_typed:
  "msg_type m = Some t \<Longrightarrow>
   receiveMessage body (object_of m) s =
     (if t = JStr ''description'' then Return () (handleRemoteDescription (defaulted m) s)
      else if t = JStr ''candidate'' then handleRemoteCandidate body (defaulted m) s
      else if t = JStr ''data'' then handleData body (defaulted m) s
      else if t = JStr ''done'' then Return () (handleDone (defaulted m) s)
      else (case ToString t of
              Inl e \<Rightarrow> Throw e s
            | Inr printed \<Rightarrow> Throw (AssertUnreached (''(Signaling) Unknown message type: '' @ printed)) s))"
  by (simp add: receiveMessage_def assert_unreached_def Let_def defaulted_def cong: sum.case_cong)

lemma receiveMessage_description:
  "is_kind ''description'' m \<Longrightarrow>
   receiveMessage body (object_of m) s = Return () (handleRemoteDescription (defaulted m) s)"
  by (simp add: is_kind_def receiveMessage_typed)

lemma receiveMessage_candidate:
  "is_kind ''candidate'' m \<Longrightarrow>
   receiveMessage body (object_of m) s = handleRemoteCandidate body (defaulted m) s"
  by (simp add: is_kind_def receiveMessage_typed)

lemma receiveMessage_data:
  "is_kind ''data'' m \<Longrightarrow>
   receiveMessage body (object_of m) s = handleData body (defaulted m) s"
  by (simp add: is_kind_def receiveMessage_typed)

lemma receiveMessage_done:
  "is_kind ''done'' m \<Longrightarrow>
   receiveMessage body (object_of m) s = Return () (handleDone (defaulted m) s)"
  by (simp add: is_kind_def receiveMessage_typed)

lemma receiveMessage_unknown:
  "msg_type m = Some t \<Longrightarrow> \<not> is_kind ''description'' m \<Longrightarrow> \<not> is_kind ''candidate'' m \<Longrightarrow>
   \<not> is_kind ''data'' m \<Longrightarrow> \<not> is_kind ''done'' m \<Longrightarrow>
   state_of (receiveMessage body (object_of m) s) = s"
  by (simp add: is_kind_def receiveMessage_typed split: sum.splits)

lemma message_cases:
  obtains (none) "msg_type m = None"
    | (desc) "is_kind ''description'' m" | (cand) "is_kind ''candidate'' m"
    | (data) "is_kind ''data'' m" | (fin) "is_kind ''done'' m"
    | (other) t where "msg_type m = Some t" "\<not> is_kind ''description'' m"
        "\<not> is_kind ''candidate'' m" "\<not> is_kind ''data'' m" "\<not> is_kind ''done'' m"
  by (cases "msg_type m") auto

lemma is_kind_unique: "is_kind k m \<Longrightarrow> is_kind k' m \<longleftrightarrow> k' = k"
  by (auto simp: is_kind_def)

lemma queued_push:
  "queued k (s\<lparr>pendingInboundMessages := pendingInboundMessages s @ [m]\<rparr>)
     = queued k s @ (if is_kind k m then [payload m] else [])"
  by (simp add: queued_def)

lemma handed_log:
  "handed k (s\<lparr>delivered := delivered s @ [d]\<rparr>)
     = handed k s @ (case handed_over k d of None \<Rightarrow> [] | Some v \<Rightarrow> [v])"
  by (simp add: handed_def map_filter_def split: option.splits)

lemma keeps_Return: "keeps I (Return ())"
  by (simp add: keeps_def)

lemma keeps_body_at: "list_all (keeps I) bodies \<Longrightarrow> keeps I (body_at bodies)"
  by (cases bodies) (simp_all add: keeps_Return)

lemma handleRemoteDescription_wf:
  assumes "well_formed s" "is_kind ''description'' m" "msg_value m \<noteq> None"
  shows "well_formed (handleRemoteDescription m s)"
proof (cases "remoteDescriptionFuture s")
  case None
  with assms show ?thesis
    by (simp add: well_formed_def handleRemoteDescription_def queued_def queueable_def queue_kind_def
        is_kind_unique)
next
  case (Some a)
  with assms show ?thesis
    by (simp add: well_formed_def handleRemoteDescription_def queued_def resolve_at_def Let_def)
qed

lemma handleRemoteCandidate_wf:
  assumes "keeps well_formed body" "well_formed s" "is_kind ''candidate'' m" "msg_value m \<noteq> None"
  shows "well_formed (state_of (handleRemoteCandidate body m s))"
proof (cases "remoteCandidateHandler s")
  case None
  with assms show ?thesis
    by (simp add: well_formed_def handleRemoteCandidate_def queued_def queueable_def queue_kind_def
        is_kind_unique split: option.splits)
next
  case (Some h)
  from assms(2) have "well_formed (s\<lparr>delivered := delivered s @ [CandidateHandled h (value_of m)]\<rparr>)"
    by (simp add: well_formed_def queued_def split: option.splits)
  with assms(1) Some show ?thesis
    by (simp add: handleRemoteCandidate_def keeps_def)
qed

lemma handleData_wf:
  assumes "keeps well_formed body" "well_formed s" "is_kind ''data'' m" "msg_value m \<noteq> None"
  shows "well_formed (state_of (handleData body m s))"
proof (cases "remoteDataHandler s")
  case None
  with assms show ?thesis
    by (simp add: well_formed_def handleData_def queued_def queueable_def queue_kind_def
        is_kind_unique split: option.splits)
next
  case (Some h)
  from assms(2) have "well_formed (s\<lparr>delivered := delivered s @ [DataHandled h (value_of m)]\<rparr>)"
    by (simp add: well_formed_def queued_def split: option.splits)
  with assms(1) Some show ?thesis
    by (simp add: handleData_def keeps_def)
qed

lemma handleDone_wf:
  assumes "well_formed s"
  shows "well_formed (handleDone m s)"
  using assms
  by (simp add: well_formed_def handleDone_def queued_def resolve_at_def Let_def nth_list_update
      split: option.splits)

lemma receiveObject_wf:
  assumes b: "keeps well_formed body" and w: "well_formed s"
  shows "well_formed (state_of (receiveMessage body (object_of m) s))"
proof (cases m rule: message_cases)
  case none
  from w show ?thesis
    unfolding receiveMessage_no_type [OF none] by simp
next
  case desc
  from handleRemoteDescription_wf [OF w, of "defaulted m"] desc show ?thesis
    unfolding receiveMessage_description [OF desc] by simp
next
  case cand
  from handleRemoteCandidate_wf [OF b w, of "defaulted m"] cand show ?thesis
    unfolding receiveMessage_candidate [OF cand] by simp
next
  case data
  from handleData_wf [OF b w, of "defaulted m"] data show ?thesis
    unfolding receiveMessage_data [OF data] by simp
next
  case fin
  from handleDone_wf [OF w, of "defaulted m"] show ?thesis
    unfolding receiveMessage_done [OF fin] by simp
next
  case other
  from w show ?thesis
    unfolding receiveMessage_unknown [OF other] .
qed

lemma receiveMessage_wf:
  assumes "keeps well_formed body" "well_formed s"
  shows "well_formed (state_of (receiveMessage body raw s))"
proof (cases "as_message raw")
  case (Inl e)
  from assms(2) show ?thesis
    unfolding receiveMessage_not_object [OF Inl] by simp
next
  case (Inr m)
  from receiveObject_wf [OF assms, of m] show ?thesis
    unfolding receiveMessage_object [OF Inr] .
qed

text \<open>A replay keeps what every call of \<^verbatim>\<open>_receiveMessage\<close> in it keeps.\<close>

lemma receive_each_keeps:
  assumes "\<And>b m t. b \<in> insert (Return ()) (set bodies) \<Longrightarrow> m \<in> set ms \<Longrightarrow> I t \<Longrightarrow>
             I (state_of (receiveMessage b (object_of m) t))"
    and "I s"
  shows "I (state_of (receive_each bodies ms s))"
  using assms
proof (induction ms arbitrary: bodies s)
  case Nil
  then show ?case by simp
next
  case (Cons m ms)
  have hd: "body_at bodies \<in> insert (Return ()) (set bodies)"
    by (cases bodies) simp_all
  have tl: "insert (Return ()) (set (tl bodies)) \<subseteq> insert (Return ()) (set bodies)"
    by (cases bodies) auto
  have 1: "I (state_of (receiveMessage (body_at bodies) (object_of m) s))"
    using Cons.prems(1) [OF hd _ Cons.prems(2), of m] by simp
  show ?case
  proof (cases "receiveMessage (body_at bodies) (object_of m) s")
    case (Throw e s')
    with 1 show ?thesis by simp
  next
    case (Return u s')
    with 1 have "I s'" by simp
    have "I (state_of (receive_each (tl bodies) ms s'))"
    proof (rule Cons.IH [OF _ \<open>I s'\<close>])
      fix b m' t
      assume "b \<in> insert (Return ()) (set (tl bodies))" "m' \<in> set ms" "I t"
      with tl show "I (state_of (receiveMessage b (object_of m') t))"
        by (intro Cons.prems(1)) auto
    qed
    with Return show ?thesis by simp
  qed
qed

lemma process_wf:
  assumes "list_all (keeps well_formed) bodies"
    and "well_formed (s\<lparr>pendingInboundMessages := []\<rparr>)"
  shows "well_formed (state_of (processPendingInboundMessages bodies s))"
  unfolding processPendingInboundMessages_def Let_def
proof (rule receive_each_keeps [where I = well_formed, OF _ assms(2)])
  fix b m and t :: "'a signaling_scheme"
  assume "b \<in> insert (Return ()) (set bodies)" "well_formed t"
  with assms(1) show "well_formed (state_of (receiveMessage b (object_of m) t))"
    by (intro receiveObject_wf) (auto simp: list_all_iff keeps_Return)
qed

lemma allocated_pending [simp]: "pendingInboundMessages (allocated s) = pendingInboundMessages s"
  by (simp add: allocated_def)

lemma allocated_wf: "well_formed s \<Longrightarrow> well_formed (allocated s\<lparr>pendingInboundMessages := []\<rparr>)"
proof (cases "remoteDescriptionFuture s")
  case None
  assume "well_formed s"
  with None show ?thesis
    by (simp add: well_formed_def allocated_def queued_def Future_new_def pending_promise_def nth_append)
next
  case (Some a)
  assume "well_formed s"
  with Some show ?thesis
    by (simp add: well_formed_def allocated_def queued_def)
qed

lemma receiveRemoteDescription_alt:
  "receiveRemoteDescription bodies s =
     (case processPendingInboundMessages bodies (allocated s) of
        Throw e s2 \<Rightarrow> Throw e s2
      | Return _ s2 \<Rightarrow> Return (remoteDescriptionFuture s2) s2)"
  by (simp add: receiveRemoteDescription_def allocated_def Let_def)

lemma receiveRemoteDescription_state:
  "state_of (receiveRemoteDescription bodies s)
     = state_of (processPendingInboundMessages bodies (allocated s))"
  by (simp add: receiveRemoteDescription_alt split: completion.splits)

lemma wf_handler_candidate:
  "well_formed s \<Longrightarrow> well_formed (s\<lparr>remoteCandidateHandler := h, pendingInboundMessages := []\<rparr>)"
  by (simp add: well_formed_def queued_def split: option.splits)

lemma wf_handler_data:
  "well_formed s \<Longrightarrow> well_formed (s\<lparr>remoteDataHandler := h, pendingInboundMessages := []\<rparr>)"
  by (simp add: well_formed_def queued_def split: option.splits)

lemma receiveRemoteDescription_wf:
  assumes "list_all (keeps well_formed) bodies" "well_formed s"
  shows "well_formed (state_of (receiveRemoteDescription bodies s))"
  unfolding receiveRemoteDescription_state
  using assms(1) allocated_wf [OF assms(2)] by (rule process_wf)

lemma set_onRemoteCandidate_wf:
  assumes "list_all (keeps well_formed) bodies" "well_formed s"
  shows "well_formed (state_of (set_onRemoteCandidate h bodies s))"
  unfolding set_onRemoteCandidate_def
  using assms(1) wf_handler_candidate [OF assms(2), of h] by (intro process_wf) simp_all

lemma set_onRemoteData_wf:
  assumes "list_all (keeps well_formed) bodies" "well_formed s"
  shows "well_formed (state_of (set_onRemoteData h bodies s))"
  unfolding set_onRemoteData_def
  using assms(1) wf_handler_data [OF assms(2), of h] by (intro process_wf) simp_all

text \<open>Whatever the handlers do, by whatever calls on the instance.\<close>

lemma tree_wf:
  fixes s :: "'a signaling_scheme"
  shows "well_formed s \<Longrightarrow> well_formed (state_of (invoke r s))"
    and "well_formed s \<Longrightarrow> well_formed (sig_step x s)"
proof (induction r s and x s rule: invoke_sig_step.induct)
  case (1 ops thrown s)
  have "well_formed (fold (\<lambda>x t. sig_step x t) ops s)"
    using 1
  proof (induction ops arbitrary: s)
    case Nil
    then show ?case by simp
  next
    case (Cons x ops)
    from Cons.prems(1) [of x s] Cons.prems(2) have "well_formed (sig_step x s)" by simp
    with Cons.IH [of "sig_step x s"] Cons.prems(1) show ?case by simp
  qed
  then show ?case by (simp add: Let_def split: option.splits)
next
  case (2 raw r s)
  from 2(1) have "keeps well_formed (\<lambda>t :: 'a signaling_scheme. invoke r t)"
    by (simp add: keeps_def)
  with 2(2) show ?case by (simp add: receiveMessage_wf)
next
  case (3 rs s)
  from 3(1) have "list_all (keeps well_formed) (map (\<lambda>r (t :: 'a signaling_scheme). invoke r t) rs)"
    by (simp add: keeps_def list_all_iff)
  with 3(2) show ?case by (simp add: receiveRemoteDescription_wf)
next
  case (4 h rs s)
  from 4(1) have "list_all (keeps well_formed) (map (\<lambda>r (t :: 'a signaling_scheme). invoke r t) rs)"
    by (simp add: keeps_def list_all_iff)
  with 4(2) show ?case by (simp add: set_onRemoteCandidate_wf)
next
  case (5 h rs s)
  from 5(1) have "list_all (keeps well_formed) (map (\<lambda>r (t :: 'a signaling_scheme). invoke r t) rs)"
    by (simp add: keeps_def list_all_iff)
  with 5(2) show ?case by (simp add: set_onRemoteData_wf)
qed

lemma invoke_keeps_wf: "keeps well_formed (invoke r)"
  by (simp add: keeps_def tree_wf)

lemma wf_run: "well_formed s \<Longrightarrow> well_formed (run ops s)"
  unfolding run_def by (induction ops arbitrary: s) (simp_all add: tree_wf)

subsection \<open>Every envelope is accounted for when handlers just return\<close>








lemma receive_state_wf: "well_formed s \<Longrightarrow> well_formed (receive_state m s)"
  unfolding receive_state_def by (rule receiveObject_wf [OF keeps_Return])

lemma fold_receive_wf: "well_formed s \<Longrightarrow> well_formed (fold receive_state ms s)"
  by (induction ms arbitrary: s) (simp_all add: receive_state_wf)


text \<open>
  A replay in which no handler is called, or every handler called returns at once, ends
  normally and is the plain succession of its calls of \<^verbatim>\<open>_receiveMessage\<close>.
\<close>

lemma queueable_cases:
  assumes "queueable m"
  obtains (desc) "is_kind ''description'' m" | (cand) "is_kind ''candidate'' m"
    | (data) "is_kind ''data'' m"
  using assms by (auto simp: queueable_def queue_kind_def)

lemma queueable_defaulted: "queueable m \<Longrightarrow> defaulted m = m"
  by (cases "msg_value m") (simp_all add: queueable_def defaulted_def)


lemma receive_uncalled:
  assumes "queueable m"
    and "is_kind ''candidate'' m \<Longrightarrow> remoteCandidateHandler s = None"
    and "is_kind ''data'' m \<Longrightarrow> remoteDataHandler s = None"
  shows "receiveMessage body (object_of m) s = Return () (receive_state m s)"
  using assms(1)
proof (cases rule: queueable_cases)
  case desc
  then show ?thesis
    unfolding receive_state_def receiveMessage_description [OF desc] by simp
next
  case cand
  with assms(2) show ?thesis
    unfolding receive_state_def receiveMessage_candidate [OF cand]
    by (simp add: handleRemoteCandidate_def)
next
  case data
  with assms(3) show ?thesis
    unfolding receive_state_def receiveMessage_data [OF data]
    by (simp add: handleData_def)
qed

lemma receive_state_handlers:
  assumes "queueable m"
  shows "remoteCandidateHandler (receive_state m s) = remoteCandidateHandler s"
    and "remoteDataHandler (receive_state m s) = remoteDataHandler s"
proof -
  have "remoteCandidateHandler (receive_state m s) = remoteCandidateHandler s
      \<and> remoteDataHandler (receive_state m s) = remoteDataHandler s"
    using assms
  proof (cases rule: queueable_cases)
    case desc
    then show ?thesis
      unfolding receive_state_def receiveMessage_description [OF desc]
      by (simp add: handleRemoteDescription_def resolve_at_def Let_def split: option.splits)
  next
    case cand
    then show ?thesis
      unfolding receive_state_def receiveMessage_candidate [OF cand]
      by (simp add: handleRemoteCandidate_def split: option.splits)
  next
    case data
    then show ?thesis
      unfolding receive_state_def receiveMessage_data [OF data]
      by (simp add: handleData_def split: option.splits)
  qed
  then show "remoteCandidateHandler (receive_state m s) = remoteCandidateHandler s"
    and "remoteDataHandler (receive_state m s) = remoteDataHandler s"
    by simp_all
qed


lemma receive_each_uncalled:
  "list_all queueable ms \<Longrightarrow>
   (remoteCandidateHandler s \<noteq> None \<Longrightarrow> filter (is_kind ''candidate'') ms = []) \<Longrightarrow>
   (remoteDataHandler s \<noteq> None \<Longrightarrow> filter (is_kind ''data'') ms = []) \<Longrightarrow>
   receive_each bodies ms s = Return () (fold receive_state ms s)"
proof (induction ms arbitrary: bodies s)
  case Nil
  then show ?case by simp
next
  case (Cons m ms)
  from Cons.prems(1) have m: "queueable m" and ms: "list_all queueable ms" by simp_all
  have c: "is_kind ''candidate'' m \<Longrightarrow> remoteCandidateHandler s = None"
    using Cons.prems(2) by (cases "remoteCandidateHandler s") auto
  have a: "is_kind ''data'' m \<Longrightarrow> remoteDataHandler s = None"
    using Cons.prems(3) by (cases "remoteDataHandler s") auto
  have 1: "receiveMessage (body_at bodies) (object_of m) s = Return () (receive_state m s)"
    using m c a by (rule receive_uncalled)
  have "receive_each (tl bodies) ms (receive_state m s)
      = Return () (fold receive_state ms (receive_state m s))"
  proof (rule Cons.IH [OF ms])
    assume "remoteCandidateHandler (receive_state m s) \<noteq> None"
    with Cons.prems(2) show "filter (is_kind ''candidate'') ms = []"
      by (auto simp: receive_state_handlers [OF m] split: if_splits)
  next
    assume "remoteDataHandler (receive_state m s) \<noteq> None"
    with Cons.prems(3) show "filter (is_kind ''data'') ms = []"
      by (auto simp: receive_state_handlers [OF m] split: if_splits)
  qed
  with 1 show ?case by simp
qed


lemma process_uncalled:
  assumes "list_all queueable (pendingInboundMessages s)"
    and "remoteCandidateHandler s \<noteq> None \<Longrightarrow> queued ''candidate'' s = []"
    and "remoteDataHandler s \<noteq> None \<Longrightarrow> queued ''data'' s = []"
  shows "processPendingInboundMessages bodies s =
     Return () (fold receive_state (pendingInboundMessages s) (s\<lparr>pendingInboundMessages := []\<rparr>))"
  unfolding processPendingInboundMessages_def Let_def
  using assms by (intro receive_each_uncalled) (simp_all add: queued_def)








subsection \<open>The remote-description slot\<close>

lemma defaulted_eq: "defaulted m = m\<lparr>msg_value := Some (payload m)\<rparr>"
  by (cases "msg_value m") (simp_all add: defaulted_def payload_def)

text \<open>Replaying the queue of a well-formed instance puts every envelope back.\<close>

lemma receive_state_requeue:
  assumes "queueable m"
    and "is_kind ''description'' m \<Longrightarrow> remoteDescriptionFuture s = None"
    and "is_kind ''candidate'' m \<Longrightarrow> remoteCandidateHandler s = None"
    and "is_kind ''data'' m \<Longrightarrow> remoteDataHandler s = None"
  shows "receive_state m s = s\<lparr>pendingInboundMessages := pendingInboundMessages s @ [m]\<rparr>"
  using assms(1)
proof (cases rule: queueable_cases)
  case desc
  with assms show ?thesis
    unfolding receive_state_def receiveMessage_description [OF desc]
    by (simp add: handleRemoteDescription_def queueable_defaulted)
next
  case cand
  with assms show ?thesis
    unfolding receive_state_def receiveMessage_candidate [OF cand]
    by (simp add: handleRemoteCandidate_def queueable_defaulted)
next
  case data
  with assms show ?thesis
    unfolding receive_state_def receiveMessage_data [OF data]
    by (simp add: handleData_def queueable_defaulted)
qed

lemma fold_requeue:
  assumes "remoteDescriptionFuture s \<noteq> None \<Longrightarrow> filter (is_kind ''description'') ms = []"
    and "remoteCandidateHandler s \<noteq> None \<Longrightarrow> filter (is_kind ''candidate'') ms = []"
    and "remoteDataHandler s \<noteq> None \<Longrightarrow> filter (is_kind ''data'') ms = []"
  shows "list_all queueable ms \<Longrightarrow>
    fold receive_state ms (s\<lparr>pendingInboundMessages := pre\<rparr>)
      = s\<lparr>pendingInboundMessages := pre @ ms\<rparr>"
  using assms
proof (induction ms arbitrary: pre)
  case Nil
  then show ?case by simp
next
  case (Cons m ms)
  from Cons.prems(1) have qm: "queueable m" and qms: "list_all queueable ms" by simp_all
  have d: "is_kind ''description'' m \<Longrightarrow> remoteDescriptionFuture s = None"
    using Cons.prems(2) by (cases "remoteDescriptionFuture s") auto
  have c: "is_kind ''candidate'' m \<Longrightarrow> remoteCandidateHandler s = None"
    using Cons.prems(3) by (cases "remoteCandidateHandler s") auto
  have a: "is_kind ''data'' m \<Longrightarrow> remoteDataHandler s = None"
    using Cons.prems(4) by (cases "remoteDataHandler s") auto
  have step: "receive_state m (s\<lparr>pendingInboundMessages := pre\<rparr>)
      = s\<lparr>pendingInboundMessages := pre @ [m]\<rparr>"
    using receive_state_requeue [OF qm, of "s\<lparr>pendingInboundMessages := pre\<rparr>"] d c a
    by simp
  have rest: "fold receive_state ms (s\<lparr>pendingInboundMessages := pre @ [m]\<rparr>)
      = s\<lparr>pendingInboundMessages := (pre @ [m]) @ ms\<rparr>"
  proof (rule Cons.IH [OF qms])
    show "remoteDescriptionFuture s \<noteq> None \<Longrightarrow> filter (is_kind ''description'') ms = []"
      using Cons.prems(2) by (auto split: if_splits)
    show "remoteCandidateHandler s \<noteq> None \<Longrightarrow> filter (is_kind ''candidate'') ms = []"
      using Cons.prems(3) by (auto split: if_splits)
    show "remoteDataHandler s \<noteq> None \<Longrightarrow> filter (is_kind ''data'') ms = []"
      using Cons.prems(4) by (auto split: if_splits)
  qed
  from step rest show ?case by simp
qed

lemma wf_uncalled:
  assumes "well_formed s"
  shows "list_all queueable (pendingInboundMessages s)"
    and "remoteCandidateHandler s \<noteq> None \<Longrightarrow> queued ''candidate'' s = []"
    and "remoteDataHandler s \<noteq> None \<Longrightarrow> queued ''data'' s = []"
    and "remoteDescriptionFuture s \<noteq> None \<Longrightarrow> queued ''description'' s = []"
  using assms by (auto simp: well_formed_def)

lemma process_returns:
  assumes "well_formed s"
  shows "processPendingInboundMessages bodies s =
     Return () (fold receive_state (pendingInboundMessages s) (s\<lparr>pendingInboundMessages := []\<rparr>))"
  using wf_uncalled(1-3) [OF assms] by (rule process_uncalled)

lemma process_idle:
  assumes "well_formed s"
  shows "processPendingInboundMessages bodies s = Return () s"
proof -
  note q = wf_uncalled(1) [OF assms]
  have "fold receive_state (pendingInboundMessages s) (s\<lparr>pendingInboundMessages := []\<rparr>)
      = s\<lparr>pendingInboundMessages := [] @ pendingInboundMessages s\<rparr>"
  proof (rule fold_requeue [OF _ _ _ q])
    show "remoteDescriptionFuture s \<noteq> None \<Longrightarrow>
        filter (is_kind ''description'') (pendingInboundMessages s) = []"
      using wf_uncalled(4) [OF assms] by (simp add: queued_def)
    show "remoteCandidateHandler s \<noteq> None \<Longrightarrow>
        filter (is_kind ''candidate'') (pendingInboundMessages s) = []"
      using wf_uncalled(2) [OF assms] by (simp add: queued_def)
    show "remoteDataHandler s \<noteq> None \<Longrightarrow>
        filter (is_kind ''data'') (pendingInboundMessages s) = []"
      using wf_uncalled(3) [OF assms] by (simp add: queued_def)
  qed
  then show ?thesis
    by (simp add: process_returns [OF assms])
qed

text \<open>
  In a call of \<^verbatim>\<open>receiveRemoteDescription\<close> on a well-formed instance no handler is called,
  so the call returns.
\<close>

lemma allocated_uncalled:
  assumes "well_formed s"
  shows "processPendingInboundMessages bodies (allocated s) =
     Return () (fold receive_state (pendingInboundMessages s)
                  (allocated s\<lparr>pendingInboundMessages := []\<rparr>))"
proof -
  have "processPendingInboundMessages bodies (allocated s) =
     Return () (fold receive_state (pendingInboundMessages (allocated s))
                  (allocated s\<lparr>pendingInboundMessages := []\<rparr>))"
  proof (rule process_uncalled)
    show "list_all queueable (pendingInboundMessages (allocated s))"
      using wf_uncalled(1) [OF assms] by simp
    show "remoteCandidateHandler (allocated s) \<noteq> None \<Longrightarrow> queued ''candidate'' (allocated s) = []"
      using wf_uncalled(2) [OF assms] by (simp add: allocated_def queued_def split: if_splits)
    show "remoteDataHandler (allocated s) \<noteq> None \<Longrightarrow> queued ''data'' (allocated s) = []"
      using wf_uncalled(3) [OF assms] by (simp add: allocated_def queued_def split: if_splits)
  qed
  then show ?thesis by simp
qed

lemma receiveRemoteDescription_returns:
  assumes "well_formed s"
  shows "receiveRemoteDescription bodies s =
     Return (remoteDescriptionFuture (state_of (processPendingInboundMessages bodies (allocated s))))
       (state_of (processPendingInboundMessages bodies (allocated s)))"
  by (simp only: receiveRemoteDescription_alt allocated_uncalled [OF assms] completion.case
      state_of.simps)

lemma receiveRemoteDescription_waiting:
  assumes "well_formed s" "remoteDescriptionFuture s = Some f"
  shows "receiveRemoteDescription bodies s = Return (Some f) s"
proof -
  have "allocated s = s" using assms(2) by (simp add: allocated_def)
  with assms show ?thesis
    by (simp add: receiveRemoteDescription_alt process_idle)
qed

lemma receiveRemoteDescription_result:
  assumes "well_formed s" "receiveRemoteDescription bodies s = Return r s1"
  shows "well_formed s1 \<and> remoteDescriptionFuture s1 = r"
proof -
  from assms(2) receiveRemoteDescription_returns [OF assms(1), of bodies]
  have s1: "s1 = state_of (processPendingInboundMessages bodies (allocated s))"
    and r: "r = remoteDescriptionFuture s1"
    by auto
  have "well_formed (fold receive_state (pendingInboundMessages s)
                  (allocated s\<lparr>pendingInboundMessages := []\<rparr>))"
    using allocated_wf [OF assms(1)] by (rule fold_receive_wf)
  with s1 r show ?thesis
    by (simp add: allocated_uncalled [OF assms(1)])
qed

lemma resolve_pending:
  "settled g = None \<Longrightarrow> \<not> alreadyResolved g \<Longrightarrow>
   settled (Future_resolve (Plain v) g) = Some (Fulfilled v)"
  by (simp add: Future_resolve_def Future_call_def settle_def)

lemma description_settles:
  assumes "well_formed s" "remoteDescriptionFuture s = Some f"
    and "as_message raw = Inr m" "is_kind ''description'' m"
  shows "receiveMessage body raw s =
      Return () (s\<lparr>remoteDescriptionFuture := None,
                   futures := (futures s)[f := Future_resolve (Plain (payload m)) (futures s ! f)],
                   delivered := delivered s @ [DescriptionResolved f (payload m)]\<rparr>)"
    and "resolved_value (state_of (receiveMessage body raw s)) f = Some (Fulfilled (payload m))"
    and "resolved_value s f = None"
proof -
  from assms(1,2) have f: "f < length (futures s)" "settled (futures s ! f) = None"
    "\<not> alreadyResolved (futures s ! f)"
    by (simp_all add: well_formed_def)
  show 1: "receiveMessage body raw s =
      Return () (s\<lparr>remoteDescriptionFuture := None,
                   futures := (futures s)[f := Future_resolve (Plain (payload m)) (futures s ! f)],
                   delivered := delivered s @ [DescriptionResolved f (payload m)]\<rparr>)"
    unfolding receiveMessage_object [OF assms(3)] receiveMessage_description [OF assms(4)]
    using assms(2) by (simp add: handleRemoteDescription_def resolve_at_def Let_def)
  show "resolved_value (state_of (receiveMessage body raw s)) f = Some (Fulfilled (payload m))"
    using f by (simp add: 1 resolved_value_def resolve_pending)
  show "resolved_value s f = None"
    using f by (simp add: resolved_value_def)
qed

lemma description_enqueued:
  assumes "remoteDescriptionFuture s = None" "as_message raw = Inr m" "is_kind ''description'' m"
  shows "receiveMessage body raw s =
      Return () (s\<lparr>pendingInboundMessages :=
                     pendingInboundMessages s @ [m\<lparr>msg_value := Some (payload m)\<rparr>]\<rparr>)"
  unfolding receiveMessage_object [OF assms(2)] receiveMessage_description [OF assms(3)]
  using assms(1) by (simp add: handleRemoteDescription_def defaulted_eq)

lemma settle_description:
  assumes "remoteDescriptionFuture s = Some f" "is_kind ''description'' m"
  shows "receive_state m s =
      s\<lparr>remoteDescriptionFuture := None,
        futures := (futures s)[f := Future_resolve (Plain (payload m)) (futures s ! f)],
        delivered := delivered s @ [DescriptionResolved f (payload m)]\<rparr>"
  unfolding receive_state_def receiveMessage_description [OF assms(2)]
  using assms(1) by (simp add: handleRemoteDescription_def resolve_at_def Let_def)

lemma replay_first_description:
  assumes q: "list_all queueable (ms1 @ d # ms2)"
    and slot: "remoteDescriptionFuture t = Some f"
    and d: "is_kind ''description'' d"
    and ms1: "filter (is_kind ''description'') ms1 = []"
    and c: "remoteCandidateHandler t \<noteq> None \<Longrightarrow> filter (is_kind ''candidate'') (ms1 @ d # ms2) = []"
    and a: "remoteDataHandler t \<noteq> None \<Longrightarrow> filter (is_kind ''data'') (ms1 @ d # ms2) = []"
  shows "fold receive_state (ms1 @ d # ms2) (t\<lparr>pendingInboundMessages := []\<rparr>)
     = t\<lparr>remoteDescriptionFuture := None,
         futures := (futures t)[f := Future_resolve (Plain (payload d)) (futures t ! f)],
         delivered := delivered t @ [DescriptionResolved f (payload d)],
         pendingInboundMessages := ms1 @ ms2\<rparr>"
proof -
  from q have q1: "list_all queueable ms1" and q2: "list_all queueable ms2" by simp_all
  have 1: "fold receive_state ms1 (t\<lparr>pendingInboundMessages := []\<rparr>)
      = t\<lparr>pendingInboundMessages := [] @ ms1\<rparr>"
  proof (rule fold_requeue [OF _ _ _ q1])
    show "filter (is_kind ''description'') ms1 = []" by (rule ms1)
    show "remoteCandidateHandler t \<noteq> None \<Longrightarrow> filter (is_kind ''candidate'') ms1 = []"
      using c by (auto split: if_splits)
    show "remoteDataHandler t \<noteq> None \<Longrightarrow> filter (is_kind ''data'') ms1 = []"
      using a by (auto split: if_splits)
  qed
  let ?t1 = "t\<lparr>pendingInboundMessages := ms1\<rparr>"
  let ?t2 = "t\<lparr>remoteDescriptionFuture := None,
         futures := (futures t)[f := Future_resolve (Plain (payload d)) (futures t ! f)],
         delivered := delivered t @ [DescriptionResolved f (payload d)]\<rparr>"
  have 2: "receive_state d ?t1 = ?t2\<lparr>pendingInboundMessages := ms1\<rparr>"
    using settle_description [of ?t1 f d] slot d by simp
  have 3: "fold receive_state ms2 (?t2\<lparr>pendingInboundMessages := ms1\<rparr>)
      = ?t2\<lparr>pendingInboundMessages := ms1 @ ms2\<rparr>"
  proof (rule fold_requeue [OF _ _ _ q2])
    show "remoteDescriptionFuture ?t2 \<noteq> None \<Longrightarrow> filter (is_kind ''description'') ms2 = []"
      by simp
    show "remoteCandidateHandler ?t2 \<noteq> None \<Longrightarrow> filter (is_kind ''candidate'') ms2 = []"
      using c by (auto split: if_splits)
    show "remoteDataHandler ?t2 \<noteq> None \<Longrightarrow> filter (is_kind ''data'') ms2 = []"
      using a by (auto split: if_splits)
  qed
  have "fold receive_state (ms1 @ d # ms2) (t\<lparr>pendingInboundMessages := []\<rparr>)
      = fold receive_state ms2 (receive_state d (fold receive_state ms1 (t\<lparr>pendingInboundMessages := []\<rparr>)))"
    by simp
  also have "\<dots> = ?t2\<lparr>pendingInboundMessages := ms1 @ ms2\<rparr>"
    using 1 2 3 by simp
  finally show ?thesis by simp
qed

lemma receiveRemoteDescription_nothing_queued:
  assumes w: "well_formed s" and slot: "remoteDescriptionFuture s = None"
    and none: "queued ''description'' s = []"
  shows "receiveRemoteDescription bodies s =
      Return (Some (length (futures s)))
        (s\<lparr>futures := futures s @ [Future_new None],
           remoteDescriptionFuture := Some (length (futures s))\<rparr>)"
proof -
  let ?t = "s\<lparr>futures := futures s @ [Future_new None],
           remoteDescriptionFuture := Some (length (futures s))\<rparr>"
  have al: "allocated s = ?t" using slot by (simp add: allocated_def)
  have "well_formed ?t"
    using w slot none
    by (simp add: well_formed_def queued_def Future_new_def pending_promise_def nth_append)
  then have "processPendingInboundMessages bodies ?t = Return () ?t" by (rule process_idle)
  then show ?thesis
    by (simp add: receiveRemoteDescription_alt al)
qed

lemma receiveRemoteDescription_consumes_first:
  assumes w: "well_formed s" and slot: "remoteDescriptionFuture s = None"
    and some: "queued ''description'' s = v # vs"
  shows "\<exists>s'. receiveRemoteDescription bodies s = Return None s'
      \<and> queued ''description'' s' = vs
      \<and> handed ''description'' s' = handed ''description'' s @ [v]
      \<and> remoteDescriptionFuture s' = None
      \<and> futures s' = futures s @ [Future_resolve (Plain v) (Future_new None)]"
proof -
  let ?P = "is_kind ''description''"
  let ?ms = "pendingInboundMessages s"
  let ?f = "length (futures s)"
  let ?t = "s\<lparr>futures := futures s @ [Future_new None], remoteDescriptionFuture := Some ?f\<rparr>"
  have al: "allocated s = ?t" using slot by (simp add: allocated_def)
  have q: "list_all queueable ?ms" using w by (simp add: well_formed_def)
  from some have "filter ?P ?ms \<noteq> []" by (auto simp: queued_def)
  then have "\<exists>x \<in> set ?ms. ?P x" by (simp add: filter_empty_conv)
  then obtain ms1 d ms2 where split: "?ms = ms1 @ d # ms2" and d: "?P d"
    and ms1: "\<forall>y \<in> set ms1. \<not> ?P y"
    using split_list_first_prop [of ?ms ?P] by blast
  from ms1 have f1: "filter ?P ms1 = []" by (simp add: filter_empty_conv)
  from some split d f1 have v: "v = payload d" and vs: "vs = map payload (filter ?P ms2)"
    by (simp_all add: queued_def)
  let ?s' = "?t\<lparr>remoteDescriptionFuture := None,
         futures := (futures ?t)[?f := Future_resolve (Plain (payload d)) (futures ?t ! ?f)],
         delivered := delivered ?t @ [DescriptionResolved ?f (payload d)],
         pendingInboundMessages := ms1 @ ms2\<rparr>"
  have "fold receive_state (ms1 @ d # ms2) (?t\<lparr>pendingInboundMessages := []\<rparr>) = ?s'"
  proof (rule replay_first_description [OF _ _ d f1])
    show "list_all queueable (ms1 @ d # ms2)" using q split by simp
    show "remoteDescriptionFuture ?t = Some ?f" by simp
    show "remoteCandidateHandler ?t \<noteq> None \<Longrightarrow> filter (is_kind ''candidate'') (ms1 @ d # ms2) = []"
      using w split by (auto simp: well_formed_def queued_def)
    show "remoteDataHandler ?t \<noteq> None \<Longrightarrow> filter (is_kind ''data'') (ms1 @ d # ms2) = []"
      using w split by (auto simp: well_formed_def queued_def)
  qed
  with split allocated_uncalled [OF w, of bodies]
  have "processPendingInboundMessages bodies ?t = Return () ?s'"
    unfolding al by simp
  then have r: "receiveRemoteDescription bodies s = Return None ?s'"
    by (simp add: receiveRemoteDescription_alt al)
  have "queued ''description'' ?s' = vs"
    using f1 vs by (simp add: queued_def)
  moreover have "handed ''description'' ?s' = handed ''description'' s @ [v]"
    using v by (simp add: handed_def map_filter_def)
  moreover have "futures ?s' = futures s @ [Future_resolve (Plain v) (Future_new None)]"
    using v by simp
  ultimately show ?thesis using r by simp
qed

lemma description_msg_simps [simp]:
  "is_kind ''description'' (description_msg v)" "payload (description_msg v) = v"
  "queueable (description_msg v)"
  by (simp_all add: description_msg_def is_kind_def payload_def queueable_def queue_kind_def)

text \<open>
  A waiting slot stays as it is until a description arrives, whatever the handlers do
  short of receiving one.
\<close>

lemma waiting_on_alt:
  "waiting_on f s \<longleftrightarrow>
     (remoteDescriptionFuture s = Some f
      \<and> list_all queueable (pendingInboundMessages s)
      \<and> remoteDoneFuture s < length (futures s)
      \<and> f < length (futures s) \<and> f \<noteq> remoteDoneFuture s
      \<and> settled (futures s ! f) = None \<and> \<not> alreadyResolved (futures s ! f)
      \<and> queued ''description'' s = []
      \<and> (remoteCandidateHandler s = None \<or> queued ''candidate'' s = [])
      \<and> (remoteDataHandler s = None \<or> queued ''data'' s = []))"
  by (auto simp: waiting_on_def well_formed_def)

lemma waiting_on_log:
  "waiting_on f s \<Longrightarrow> waiting_on f (s\<lparr>delivered := delivered s @ [d]\<rparr>)"
  by (simp add: waiting_on_alt queued_def)

lemma receiveObject_waiting:
  assumes b: "keeps (waiting_on f) body" and s: "waiting_on f s"
    and m: "\<not> is_kind ''description'' m"
  shows "waiting_on f (state_of (receiveMessage body (object_of m) s))"
proof (cases m rule: message_cases)
  case none
  from s show ?thesis
    unfolding receiveMessage_no_type [OF none] by simp
next
  case desc
  with m show ?thesis by simp
next
  case cand
  show ?thesis
  proof (cases "remoteCandidateHandler s")
    case None
    have "well_formed (state_of (handleRemoteCandidate (Return ()) (defaulted m) s))"
      using s cand by (intro handleRemoteCandidate_wf keeps_Return) (simp_all add: waiting_on_def)
    with None s show ?thesis
      unfolding receiveMessage_candidate [OF cand]
      by (simp add: handleRemoteCandidate_def waiting_on_def)
  next
    case (Some h)
    with b waiting_on_log [OF s] show ?thesis
      unfolding receiveMessage_candidate [OF cand]
      by (simp add: handleRemoteCandidate_def keeps_def)
  qed
next
  case data
  show ?thesis
  proof (cases "remoteDataHandler s")
    case None
    have "well_formed (state_of (handleData (Return ()) (defaulted m) s))"
      using s data by (intro handleData_wf keeps_Return) (simp_all add: waiting_on_def)
    with None s show ?thesis
      unfolding receiveMessage_data [OF data]
      by (simp add: handleData_def waiting_on_def)
  next
    case (Some h)
    with b waiting_on_log [OF s] show ?thesis
      unfolding receiveMessage_data [OF data]
      by (simp add: handleData_def keeps_def)
  qed
next
  case fin
  from s have "well_formed (handleDone (defaulted m) s)"
    by (intro handleDone_wf) (simp add: waiting_on_def)
  with s show ?thesis
    unfolding receiveMessage_done [OF fin]
    by (simp add: waiting_on_def handleDone_def resolve_at_def Let_def)
next
  case other
  from s show ?thesis
    unfolding receiveMessage_unknown [OF other] .
qed

lemma receiveMessage_waiting:
  assumes "keeps (waiting_on f) body" "waiting_on f s" "\<not> is_description raw"
  shows "waiting_on f (state_of (receiveMessage body raw s))"
proof (cases "as_message raw")
  case (Inl e)
  from assms(2) show ?thesis
    unfolding receiveMessage_not_object [OF Inl] by simp
next
  case (Inr m)
  with assms(3) have "\<not> is_kind ''description'' m" by (simp add: is_description_def)
  from receiveObject_waiting [OF assms(1,2) this] show ?thesis
    unfolding receiveMessage_object [OF Inr] .
qed

lemma process_waiting:
  assumes b: "list_all (keeps (waiting_on f)) bodies"
    and s: "waiting_on f (s\<lparr>pendingInboundMessages := []\<rparr>)"
    and q: "queued ''description'' s = []"
  shows "waiting_on f (state_of (processPendingInboundMessages bodies s))"
  unfolding processPendingInboundMessages_def Let_def
proof (rule receive_each_keeps [where I = "waiting_on f", OF _ s])
  fix b m and t :: "'a signaling_scheme"
  assume "b \<in> insert (Return ()) (set bodies)" "m \<in> set (pendingInboundMessages s)"
    and t: "waiting_on f t"
  with b q have "keeps (waiting_on f) b" "\<not> is_kind ''description'' m"
    by (auto simp: list_all_iff keeps_Return queued_def filter_empty_conv)
  then show "waiting_on f (state_of (receiveMessage b (object_of m) t))"
    using t by (intro receiveObject_waiting)
qed

lemma tree_waiting:
  fixes s :: "'a signaling_scheme"
  shows "waiting_on f s \<Longrightarrow> description_free_reaction r \<Longrightarrow> waiting_on f (state_of (invoke r s))"
    and "waiting_on f s \<Longrightarrow> description_free x \<Longrightarrow> waiting_on f (sig_step x s)"
proof (induction r s and x s rule: invoke_sig_step.induct)
  case (1 ops thrown s)
  have "waiting_on f (fold (\<lambda>x t. sig_step x t) ops s)"
    using 1
  proof (induction ops arbitrary: s)
    case Nil
    then show ?case by simp
  next
    case (Cons x ops)
    from Cons.prems(1) [of x s] Cons.prems(2,3) have "waiting_on f (sig_step x s)" by simp
    with Cons.IH [of "sig_step x s"] Cons.prems(1,3) show ?case by simp
  qed
  then show ?case by (simp add: Let_def split: option.splits)
next
  case (2 raw r s)
  from 2(1,3) have "keeps (waiting_on f) (\<lambda>t :: 'a signaling_scheme. invoke r t)"
    by (simp add: keeps_def)
  with 2(2,3) show ?case by (simp add: receiveMessage_waiting)
next
  case (3 rs s)
  from 3(1,3) have b: "list_all (keeps (waiting_on f)) (map (\<lambda>r (t :: 'a signaling_scheme). invoke r t) rs)"
    by (simp add: keeps_def list_all_iff)
  from 3(2) have al: "allocated s = s" and q: "queued ''description'' s = []"
    and s0: "waiting_on f (s\<lparr>pendingInboundMessages := []\<rparr>)"
    by (simp_all add: waiting_on_alt allocated_def queued_def)
  from process_waiting [OF b s0 q] show ?case
    by (simp add: receiveRemoteDescription_state al)
next
  case (4 h rs s)
  from 4(1,3) have b: "list_all (keeps (waiting_on f)) (map (\<lambda>r (t :: 'a signaling_scheme). invoke r t) rs)"
    by (simp add: keeps_def list_all_iff)
  from 4(2) have q: "queued ''description'' (s\<lparr>remoteCandidateHandler := h\<rparr>) = []"
    and s0: "waiting_on f (s\<lparr>remoteCandidateHandler := h, pendingInboundMessages := []\<rparr>)"
    by (simp_all add: waiting_on_alt queued_def)
  from process_waiting [OF b _ q] s0 show ?case
    by (simp add: set_onRemoteCandidate_def)
next
  case (5 h rs s)
  from 5(1,3) have b: "list_all (keeps (waiting_on f)) (map (\<lambda>r (t :: 'a signaling_scheme). invoke r t) rs)"
    by (simp add: keeps_def list_all_iff)
  from 5(2) have q: "queued ''description'' (s\<lparr>remoteDataHandler := h\<rparr>) = []"
    and s0: "waiting_on f (s\<lparr>remoteDataHandler := h, pendingInboundMessages := []\<rparr>)"
    by (simp_all add: waiting_on_alt queued_def)
  from process_waiting [OF b _ q] s0 show ?case
    by (simp add: set_onRemoteData_def)
qed

lemma run_waiting:
  "waiting_on f s \<Longrightarrow> list_all description_free ops \<Longrightarrow> waiting_on f (run ops s)"
  unfolding run_def by (induction ops arbitrary: s) (simp_all add: tree_waiting)

subsection \<open>Validation\<close>

lemma ToString_error:
  "ToString v = Inl e \<Longrightarrow> \<exists>reason. e = TypeError reason"
  "ToStrings vs = Inl e \<Longrightarrow> \<exists>reason. e = TypeError reason"
  by (induction v and vs rule: ToString_ToStrings.induct)
     (auto split: sum.splits option.splits if_splits)

lemma as_message_error:
  "as_message raw = Inl e \<longleftrightarrow>
     \<not> is_object raw \<and> e = TypeError ''Cannot use 'in' operator to search for 'type' ''"
  by (cases raw) auto

text \<open>
  C7, as the code has it. \<^verbatim>\<open>_receiveMessage\<close> on any value and any instance, whatever the
  handlers do. On what is no object the test for the \<^verbatim>\<open>type\<close> field throws a
  \<^verbatim>\<open>TypeError\<close> and the instance is left as it was. On an object: without a \<^verbatim>\<open>type\<close>
  field the call throws the unreachable assertion and leaves the instance as it was; a
  missing \<^verbatim>\<open>value\<close> counts as \<^verbatim>\<open>null\<close>, and the handler of each of the four kinds is
  called with the message whose value is the payload so defaulted; with any other
  \<^verbatim>\<open>type\<close> nothing is dispatched, the instance is left as it was, and the call throws:
  the unreachable assertion naming the type when the type can be converted to a string,
  and otherwise the \<^verbatim>\<open>TypeError\<close> of that conversion.
\<close>

theorem receiveMessage_validates:
  "(\<not> is_object raw \<longrightarrow>
      receiveMessage body raw s =
        Throw (TypeError ''Cannot use 'in' operator to search for 'type' '') s)
   \<and> (\<forall>m. as_message raw = Inr m \<longrightarrow>
        is_object raw
      \<and> (msg_type m = None \<longrightarrow>
          receiveMessage body raw s =
            Throw (AssertUnreached ''(Signaling) Invalid message, did not contain a 'type' field'') s)
      \<and> (msg_value m = None \<longrightarrow> payload m = JNull)
      \<and> (is_kind ''description'' m \<longrightarrow>
          receiveMessage body raw s =
            Return () (handleRemoteDescription (m\<lparr>msg_value := Some (payload m)\<rparr>) s))
      \<and> (is_kind ''candidate'' m \<longrightarrow>
          receiveMessage body raw s =
            handleRemoteCandidate body (m\<lparr>msg_value := Some (payload m)\<rparr>) s)
      \<and> (is_kind ''data'' m \<longrightarrow>
          receiveMessage body raw s = handleData body (m\<lparr>msg_value := Some (payload m)\<rparr>) s)
      \<and> (is_kind ''done'' m \<longrightarrow>
          receiveMessage body raw s =
            Return () (handleDone (m\<lparr>msg_value := Some (payload m)\<rparr>) s))
      \<and> (\<forall>t. msg_type m = Some t \<longrightarrow>
            t \<noteq> JStr ''description'' \<longrightarrow> t \<noteq> JStr ''candidate'' \<longrightarrow> t \<noteq> JStr ''data'' \<longrightarrow>
            t \<noteq> JStr ''done'' \<longrightarrow>
            (\<forall>printed. ToString t = Inr printed \<longrightarrow>
               receiveMessage body raw s =
                 Throw (AssertUnreached (''(Signaling) Unknown message type: '' @ printed)) s)
          \<and> (\<forall>e. ToString t = Inl e \<longrightarrow>
               receiveMessage body raw s = Throw e s \<and> (\<exists>reason. e = TypeError reason))))"
proof -
  have A: "\<not> is_object raw \<longrightarrow>
      receiveMessage body raw s =
        Throw (TypeError ''Cannot use 'in' operator to search for 'type' '') s"
  proof
    assume "\<not> is_object raw"
    then have "as_message raw = Inl (TypeError ''Cannot use 'in' operator to search for 'type' '')"
      by (simp add: as_message_error)
    then show "receiveMessage body raw s =
          Throw (TypeError ''Cannot use 'in' operator to search for 'type' '') s"
      by (rule receiveMessage_not_object)
  qed
  have B: "is_object raw
      \<and> (msg_type m = None \<longrightarrow>
          receiveMessage body raw s =
            Throw (AssertUnreached ''(Signaling) Invalid message, did not contain a 'type' field'') s)
      \<and> (msg_value m = None \<longrightarrow> payload m = JNull)
      \<and> (is_kind ''description'' m \<longrightarrow>
          receiveMessage body raw s =
            Return () (handleRemoteDescription (m\<lparr>msg_value := Some (payload m)\<rparr>) s))
      \<and> (is_kind ''candidate'' m \<longrightarrow>
          receiveMessage body raw s =
            handleRemoteCandidate body (m\<lparr>msg_value := Some (payload m)\<rparr>) s)
      \<and> (is_kind ''data'' m \<longrightarrow>
          receiveMessage body raw s = handleData body (m\<lparr>msg_value := Some (payload m)\<rparr>) s)
      \<and> (is_kind ''done'' m \<longrightarrow>
          receiveMessage body raw s =
            Return () (handleDone (m\<lparr>msg_value := Some (payload m)\<rparr>) s))
      \<and> (\<forall>t. msg_type m = Some t \<longrightarrow>
            t \<noteq> JStr ''description'' \<longrightarrow> t \<noteq> JStr ''candidate'' \<longrightarrow> t \<noteq> JStr ''data'' \<longrightarrow>
            t \<noteq> JStr ''done'' \<longrightarrow>
            (\<forall>printed. ToString t = Inr printed \<longrightarrow>
               receiveMessage body raw s =
                 Throw (AssertUnreached (''(Signaling) Unknown message type: '' @ printed)) s)
          \<and> (\<forall>e. ToString t = Inl e \<longrightarrow>
               receiveMessage body raw s = Throw e s \<and> (\<exists>reason. e = TypeError reason)))"
    if raw: "as_message raw = Inr m" for m
  proof -
    note obj = receiveMessage_object [OF raw, of body s]
    have 0: "is_object raw"
      using raw by (cases raw) simp_all
    have 1: "msg_type m = None \<longrightarrow>
          receiveMessage body raw s =
            Throw (AssertUnreached ''(Signaling) Invalid message, did not contain a 'type' field'') s"
      unfolding obj by (intro impI) (rule receiveMessage_no_type)
    have 2: "msg_value m = None \<longrightarrow> payload m = JNull"
      by (simp add: payload_def)
    have 3: "is_kind ''description'' m \<longrightarrow>
          receiveMessage body raw s =
            Return () (handleRemoteDescription (m\<lparr>msg_value := Some (payload m)\<rparr>) s)"
      unfolding obj by (intro impI) (simp only: receiveMessage_description defaulted_eq)
    have 4: "is_kind ''candidate'' m \<longrightarrow>
          receiveMessage body raw s =
            handleRemoteCandidate body (m\<lparr>msg_value := Some (payload m)\<rparr>) s"
      unfolding obj by (intro impI) (simp only: receiveMessage_candidate defaulted_eq)
    have 5: "is_kind ''data'' m \<longrightarrow>
          receiveMessage body raw s = handleData body (m\<lparr>msg_value := Some (payload m)\<rparr>) s"
      unfolding obj by (intro impI) (simp only: receiveMessage_data defaulted_eq)
    have 6: "is_kind ''done'' m \<longrightarrow>
          receiveMessage body raw s =
            Return () (handleDone (m\<lparr>msg_value := Some (payload m)\<rparr>) s)"
      unfolding obj by (intro impI) (simp only: receiveMessage_done defaulted_eq)
    have 7: "\<forall>t. msg_type m = Some t \<longrightarrow>
            t \<noteq> JStr ''description'' \<longrightarrow> t \<noteq> JStr ''candidate'' \<longrightarrow> t \<noteq> JStr ''data'' \<longrightarrow>
            t \<noteq> JStr ''done'' \<longrightarrow>
            (\<forall>printed. ToString t = Inr printed \<longrightarrow>
               receiveMessage body raw s =
                 Throw (AssertUnreached (''(Signaling) Unknown message type: '' @ printed)) s)
          \<and> (\<forall>e. ToString t = Inl e \<longrightarrow>
               receiveMessage body raw s = Throw e s \<and> (\<exists>reason. e = TypeError reason))"
      unfolding obj using ToString_error(1) by (simp add: receiveMessage_typed)
    from 0 1 2 3 4 5 6 7 show ?thesis by (intro conjI)
  qed
  from A B show ?thesis by blast
qed

theorem receiveMessage_validates_example:
  "receiveMessage (Return ()) (JObj [(''value'', JStr ''v'')]) Signaling_new =
     Throw (AssertUnreached ''(Signaling) Invalid message, did not contain a 'type' field'') Signaling_new
   \<and> receiveMessage (Return ()) (JObj [(''type'', JStr ''candidate'')]) Signaling_new =
     handleRemoteCandidate (Return ())
       \<lparr>msg_type = Some (JStr ''candidate''), msg_value = Some JNull\<rparr> Signaling_new
   \<and> receiveMessage (Return ()) (JObj [(''type'', JStr ''offer''), (''value'', JStr ''v'')]) Signaling_new =
     Throw (AssertUnreached ''(Signaling) Unknown message type: offer'') Signaling_new
   \<and> receiveMessage (Return ()) (JStr ''candidate'') Signaling_new =
     Throw (TypeError ''Cannot use 'in' operator to search for 'type' '') Signaling_new"
proof -
  have 1: "receiveMessage (Return ()) (JObj [(''value'', JStr ''v'')]) Signaling_new =
     Throw (AssertUnreached ''(Signaling) Invalid message, did not contain a 'type' field'') Signaling_new"
    using receiveMessage_validates [of "JObj [(''value'', JStr ''v'')]" "Return ()" Signaling_new]
    by simp
  have 2: "receiveMessage (Return ()) (JObj [(''type'', JStr ''candidate'')]) Signaling_new =
     handleRemoteCandidate (Return ())
       \<lparr>msg_type = Some (JStr ''candidate''), msg_value = Some JNull\<rparr> Signaling_new"
    using receiveMessage_validates [of "JObj [(''type'', JStr ''candidate'')]" "Return ()" Signaling_new]
    by (simp add: is_kind_def payload_def)
  have 3: "receiveMessage (Return ()) (JObj [(''type'', JStr ''offer''), (''value'', JStr ''v'')]) Signaling_new =
     Throw (AssertUnreached ''(Signaling) Unknown message type: offer'') Signaling_new"
    using receiveMessage_validates
      [of "JObj [(''type'', JStr ''offer''), (''value'', JStr ''v'')]" "Return ()" Signaling_new]
    by simp
  have 4: "receiveMessage (Return ()) (JStr ''candidate'') Signaling_new =
     Throw (TypeError ''Cannot use 'in' operator to search for 'type' '') Signaling_new"
    using receiveMessage_validates [of "JStr ''candidate''" "Return ()" Signaling_new]
    by simp
  from 1 2 3 4 show ?thesis by (intro conjI)
qed

text \<open>
  C7 as stated fails twice. A \<^verbatim>\<open>type\<close> that is none of the four and cannot be converted
  to a string, here the object \<^verbatim>\<open>{toString: 5}\<close>, makes the template literal throw a
  \<^verbatim>\<open>TypeError\<close>, and \<^verbatim>\<open>assert_unreached\<close> is never called. And a message that is no
  object, here the number 5 that \<^verbatim>\<open>JSON.parse\<close> makes of the frame \<^verbatim>\<open>5\<close>, has no \<^verbatim>\<open>type\<close>
  field, yet the error is the \<^verbatim>\<open>TypeError\<close> of the operator \<^verbatim>\<open>in\<close>.
\<close>

theorem unprintable_type_example:
  "receiveMessage (Return ())
      (JObj [(''type'', JObj [(''toString'', JNum (Number ''5''))])]) Signaling_new
     = Throw (TypeError ''Cannot convert object to primitive value'') Signaling_new
   \<and> receiveMessage (Return ()) (JNum (Number ''5'')) Signaling_new
     = Throw (TypeError ''Cannot use 'in' operator to search for 'type' '') Signaling_new"
  by code_simp

subsection \<open>Delivery\<close>




subsection \<open>Waiting for the remote description\<close>

text \<open>
  C9. After any history, whatever the handlers did in it, when a call of
  \<^verbatim>\<open>receiveRemoteDescription\<close> has returned a Future (which is then pending), and whatever
  happens next short of a description arriving: a second call returns the Future at the
  same address and changes nothing in the instance, so no second slot exists; a
  description arriving then fulfils that one Future with its payload, empties the slot
  and is not queued. Every awaiter of one Future is handed the same outcome (C8).
\<close>

theorem second_wait_shares_future:
  assumes "receiveRemoteDescription bodies (run ops Signaling_new) = Return (Some f) s1"
    and "list_all description_free later"
  shows "receiveRemoteDescription bodies' (run later s1) = Return (Some f) (run later s1)
       \<and> resolved_value (run later s1) f = None
       \<and> (as_message raw = Inr m \<longrightarrow> is_kind ''description'' m \<longrightarrow>
            resolved_value (state_of (receiveMessage body raw (run later s1))) f
              = Some (Fulfilled (payload m))
            \<and> remoteDescriptionFuture (state_of (receiveMessage body raw (run later s1))) = None
            \<and> pendingInboundMessages (state_of (receiveMessage body raw (run later s1)))
                = pendingInboundMessages (run later s1))"
proof -
  have w: "well_formed (run ops Signaling_new)"
    by (rule wf_run [OF wf_new])
  from receiveRemoteDescription_result [OF w assms(1)]
  have "waiting_on f s1" by (simp add: waiting_on_def)
  define s2 where "s2 = run later s1"
  have "waiting_on f s2"
    unfolding s2_def using \<open>waiting_on f s1\<close> assms(2) by (rule run_waiting)
  then have w2: "well_formed s2" and slot: "remoteDescriptionFuture s2 = Some f"
    by (simp_all add: waiting_on_def)
  have 1: "receiveRemoteDescription bodies' s2 = Return (Some f) s2"
    using w2 slot by (rule receiveRemoteDescription_waiting)
  have 2: "resolved_value s2 f = None"
    using \<open>waiting_on f s2\<close> by (simp add: waiting_on_alt resolved_value_def)
  have 3: "as_message raw = Inr m \<longrightarrow> is_kind ''description'' m \<longrightarrow>
            resolved_value (state_of (receiveMessage body raw s2)) f = Some (Fulfilled (payload m))
            \<and> remoteDescriptionFuture (state_of (receiveMessage body raw s2)) = None
            \<and> pendingInboundMessages (state_of (receiveMessage body raw s2))
                = pendingInboundMessages s2"
  proof (intro impI)
    assume raw: "as_message raw = Inr m" and m: "is_kind ''description'' m"
    from description_settles [OF w2 slot raw m] show
      "resolved_value (state_of (receiveMessage body raw s2)) f = Some (Fulfilled (payload m))
       \<and> remoteDescriptionFuture (state_of (receiveMessage body raw s2)) = None
       \<and> pendingInboundMessages (state_of (receiveMessage body raw s2)) = pendingInboundMessages s2"
      by simp
  qed
  from 1 2 3 show ?thesis unfolding s2_def by (intro conjI)
qed

theorem second_wait_shares_future_example:
  "receiveRemoteDescription [] Signaling_new =
     Return (Some 1) (state_of (receiveRemoteDescription [] Signaling_new))
   \<and> list_all description_free [Arrival (candidate_msg (JStr ''c''))]
   \<and> returned (receiveRemoteDescription []
        (run [Arrival (candidate_msg (JStr ''c''))]
           (state_of (receiveRemoteDescription [] Signaling_new)))) = Some (Some 1)
   \<and> resolved_value
       (state_of (receiveMessage (Return ()) (object_of (description_msg (JStr ''offer'')))
          (run [Arrival (candidate_msg (JStr ''c''))]
             (state_of (receiveRemoteDescription [] Signaling_new))))) 1
     = Some (Fulfilled (JStr ''offer''))"
proof -
  have first: "receiveRemoteDescription [] (run [] Signaling_new) =
     Return (Some 1) (state_of (receiveRemoteDescription [] Signaling_new))"
    by code_simp
  have later: "list_all description_free [Arrival (candidate_msg (JStr ''c''))]"
    by code_simp
  from second_wait_shares_future
    [OF first later, where bodies' = "[]" and raw = "object_of (description_msg (JStr ''offer''))"
       and m = "description_msg (JStr ''offer'')" and body = "Return ()"]
    first later
  show ?thesis by (simp add: run_def)
qed

text \<open>
  C10, as the code has it. After any history, whatever the handlers did in it: a
  description arriving while a wait is outstanding fulfils the waiting Future with its
  payload and leaves the slot empty and no description queued; a description arriving
  while no wait is outstanding is appended to the queue, the instance being otherwise
  unchanged; a call of \<^verbatim>\<open>receiveRemoteDescription\<close> hands over the oldest queued
  description and no other (the later ones stay queued in order), the slot being empty
  afterwards exactly when there was one to hand over; a call made while no wait is
  outstanding and no description is queued is served by the next description to arrive
  and by no other, the one after that being queued; and a call made while a wait is
  outstanding changes nothing, so it is served by no description of its own.
\<close>

theorem description_wait_consumes_one:
  "(let s = run ops Signaling_new; s' = state_of (receiveRemoteDescription bodies s)
    in (\<forall>f m. remoteDescriptionFuture s = Some f \<longrightarrow> as_message raw = Inr m \<longrightarrow>
          is_kind ''description'' m \<longrightarrow>
          remoteDescriptionFuture (state_of (receiveMessage body raw s)) = None
          \<and> resolved_value (state_of (receiveMessage body raw s)) f = Some (Fulfilled (payload m))
          \<and> queued ''description'' (state_of (receiveMessage body raw s)) = [])
     \<and> (\<forall>m. remoteDescriptionFuture s = None \<longrightarrow> as_message raw = Inr m \<longrightarrow>
          is_kind ''description'' m \<longrightarrow>
          receiveMessage body raw s =
            Return () (s\<lparr>pendingInboundMessages :=
                           pendingInboundMessages s @ [m\<lparr>msg_value := Some (payload m)\<rparr>]\<rparr>))
     \<and> handed ''description'' s' = handed ''description'' s @ take 1 (queued ''description'' s)
     \<and> queued ''description'' s' = drop 1 (queued ''description'' s)
     \<and> (remoteDescriptionFuture s' = None \<longleftrightarrow> queued ''description'' s \<noteq> [])
     \<and> (remoteDescriptionFuture s = None \<longrightarrow> queued ''description'' s = [] \<longrightarrow>
          (let s1 = state_of (receiveMessage body (object_of (description_msg v1)) s');
               s2 = state_of (receiveMessage body' (object_of (description_msg v2)) s1)
           in handed ''description'' s1 = handed ''description'' s @ [v1]
            \<and> queued ''description'' s1 = []
            \<and> remoteDescriptionFuture s1 = None
            \<and> handed ''description'' s2 = handed ''description'' s @ [v1]
            \<and> queued ''description'' s2 = [v2]))
     \<and> (remoteDescriptionFuture s \<noteq> None \<longrightarrow> s' = s))"
proof -
  define s where "s = run ops Signaling_new"
  define s' where "s' = state_of (receiveRemoteDescription bodies s)"
  have w: "well_formed s"
    unfolding s_def by (rule wf_run [OF wf_new])
  have a: "\<forall>f m. remoteDescriptionFuture s = Some f \<longrightarrow> as_message raw = Inr m \<longrightarrow>
          is_kind ''description'' m \<longrightarrow>
          remoteDescriptionFuture (state_of (receiveMessage body raw s)) = None
          \<and> resolved_value (state_of (receiveMessage body raw s)) f = Some (Fulfilled (payload m))
          \<and> queued ''description'' (state_of (receiveMessage body raw s)) = []"
  proof (intro allI impI)
    fix f m
    assume slot: "remoteDescriptionFuture s = Some f" and raw: "as_message raw = Inr m"
      and m: "is_kind ''description'' m"
    from w slot have "queued ''description'' s = []" by (simp add: well_formed_def)
    with description_settles [OF w slot raw m] show
      "remoteDescriptionFuture (state_of (receiveMessage body raw s)) = None
          \<and> resolved_value (state_of (receiveMessage body raw s)) f = Some (Fulfilled (payload m))
          \<and> queued ''description'' (state_of (receiveMessage body raw s)) = []"
      by (simp add: queued_def)
  qed
  have b: "\<forall>m. remoteDescriptionFuture s = None \<longrightarrow> as_message raw = Inr m \<longrightarrow>
          is_kind ''description'' m \<longrightarrow>
          receiveMessage body raw s =
            Return () (s\<lparr>pendingInboundMessages :=
                           pendingInboundMessages s @ [m\<lparr>msg_value := Some (payload m)\<rparr>]\<rparr>)"
    by (intro allI impI) (rule description_enqueued)
  have c: "handed ''description'' s' = handed ''description'' s @ take 1 (queued ''description'' s)
     \<and> queued ''description'' s' = drop 1 (queued ''description'' s)
     \<and> (remoteDescriptionFuture s' = None \<longleftrightarrow> queued ''description'' s \<noteq> [])"
  proof (cases "remoteDescriptionFuture s")
    case (Some f)
    with w have "queued ''description'' s = []" by (simp add: well_formed_def)
    moreover have "s' = s"
      unfolding s'_def using receiveRemoteDescription_waiting [OF w Some] by simp
    ultimately show ?thesis using Some by simp
  next
    case None
    show ?thesis
    proof (cases "queued ''description'' s")
      case Nil
      from receiveRemoteDescription_nothing_queued [OF w None Nil]
      have "s' = s\<lparr>futures := futures s @ [Future_new None],
           remoteDescriptionFuture := Some (length (futures s))\<rparr>"
        unfolding s'_def by simp
      with Nil show ?thesis by (simp add: handed_def queued_def)
    next
      case (Cons v vs)
      from receiveRemoteDescription_consumes_first [OF w None Cons, of bodies]
      show ?thesis unfolding s'_def using Cons by auto
    qed
  qed
  have d: "remoteDescriptionFuture s = None \<longrightarrow> queued ''description'' s = [] \<longrightarrow>
          (let s1 = state_of (receiveMessage body (object_of (description_msg v1)) s');
               s2 = state_of (receiveMessage body' (object_of (description_msg v2)) s1)
           in handed ''description'' s1 = handed ''description'' s @ [v1]
            \<and> queued ''description'' s1 = []
            \<and> remoteDescriptionFuture s1 = None
            \<and> handed ''description'' s2 = handed ''description'' s @ [v1]
            \<and> queued ''description'' s2 = [v2])"
  proof (intro impI)
    assume slot: "remoteDescriptionFuture s = None" and none: "queued ''description'' s = []"
    let ?f = "length (futures s)"
    define s1 where "s1 = state_of (receiveMessage body (object_of (description_msg v1)) s')"
    define s2 where "s2 = state_of (receiveMessage body' (object_of (description_msg v2)) s1)"
    from receiveRemoteDescription_nothing_queued [OF w slot none, of bodies]
    have r: "receiveRemoteDescription bodies s = Return (Some ?f) s'"
      and s'_eq: "s' = s\<lparr>futures := futures s @ [Future_new None],
           remoteDescriptionFuture := Some ?f\<rparr>"
      unfolding s'_def by simp_all
    from receiveRemoteDescription_result [OF w r]
    have w': "well_formed s'" and slot': "remoteDescriptionFuture s' = Some ?f" by simp_all
    have hq: "handed ''description'' s' = handed ''description'' s"
      "queued ''description'' s' = []"
      using none by (simp_all add: s'_eq handed_def queued_def)
    from description_settles(1)
      [OF w' slot' as_message_object_of [of "description_msg v1"] description_msg_simps(1) [of v1],
       where body = body]
    have s1_eq: "s1 = s'\<lparr>remoteDescriptionFuture := None,
                   futures := (futures s')[?f := Future_resolve (Plain v1) (futures s' ! ?f)],
                   delivered := delivered s' @ [DescriptionResolved ?f v1]\<rparr>"
      unfolding s1_def by simp
    have 1: "handed ''description'' s1 = handed ''description'' s @ [v1]"
      "queued ''description'' s1 = []" "remoteDescriptionFuture s1 = None"
      using hq by (simp_all add: s1_eq handed_def queued_def map_filter_def)
    from description_enqueued
      [OF 1(3) as_message_object_of [of "description_msg v2"] description_msg_simps(1) [of v2],
       where body = body']
    have s2_eq: "s2 = s1\<lparr>pendingInboundMessages := pendingInboundMessages s1 @
        [(description_msg v2)\<lparr>msg_value := Some v2\<rparr>]\<rparr>"
      unfolding s2_def by simp
    have 2: "handed ''description'' s2 = handed ''description'' s @ [v1]"
      "queued ''description'' s2 = [v2]"
      using 1 by (simp_all add: s2_eq handed_def queued_def description_msg_def is_kind_def
          payload_def)
    from 1 2 show "(let s1 = state_of (receiveMessage body (object_of (description_msg v1)) s');
               s2 = state_of (receiveMessage body' (object_of (description_msg v2)) s1)
           in handed ''description'' s1 = handed ''description'' s @ [v1]
            \<and> queued ''description'' s1 = []
            \<and> remoteDescriptionFuture s1 = None
            \<and> handed ''description'' s2 = handed ''description'' s @ [v1]
            \<and> queued ''description'' s2 = [v2])"
      unfolding Let_def s1_def s2_def by simp
  qed
  have e: "remoteDescriptionFuture s \<noteq> None \<longrightarrow> s' = s"
  proof
    assume "remoteDescriptionFuture s \<noteq> None"
    then obtain f where "remoteDescriptionFuture s = Some f" by auto
    from receiveRemoteDescription_waiting [OF w this, of bodies] show "s' = s"
      unfolding s'_def by simp
  qed
  from a b c d e show ?thesis
    unfolding Let_def s_def s'_def by blast
qed

theorem description_wait_consumes_one_example:
  "handed ''description''
      (state_of (receiveRemoteDescription []
        (run [Arrival (description_msg (JStr ''d1'')),
              Arrival (description_msg (JStr ''d2''))] Signaling_new)))
     = [JStr ''d1'']
   \<and> queued ''description''
      (state_of (receiveRemoteDescription []
        (run [Arrival (description_msg (JStr ''d1'')),
              Arrival (description_msg (JStr ''d2''))] Signaling_new)))
     = [JStr ''d2'']
   \<and> remoteDescriptionFuture (run [ReceiveRemoteDescription []] Signaling_new) = Some 1
   \<and> resolved_value
        (state_of (receiveMessage (Return ()) (object_of (description_msg (JStr ''d1'')))
           (run [ReceiveRemoteDescription []] Signaling_new))) 1 = Some (Fulfilled (JStr ''d1''))
   \<and> state_of (receiveRemoteDescription [] (run [ReceiveRemoteDescription []] Signaling_new))
       = run [ReceiveRemoteDescription []] Signaling_new
   \<and> queued ''description''
        (state_of (receiveMessage (Return ()) (object_of (description_msg (JStr ''d2'')))
          (state_of (receiveMessage (Return ()) (object_of (description_msg (JStr ''d1'')))
            (state_of (receiveRemoteDescription [] (run [] Signaling_new))))))) = [JStr ''d2'']
   \<and> handed ''description''
        (state_of (receiveMessage (Return ()) (object_of (description_msg (JStr ''d2'')))
          (state_of (receiveMessage (Return ()) (object_of (description_msg (JStr ''d1'')))
            (state_of (receiveRemoteDescription [] (run [] Signaling_new))))))) = [JStr ''d1'']"
proof -
  let ?ops = "[Arrival (description_msg (JStr ''d1'')), Arrival (description_msg (JStr ''d2''))]"
  let ?d1 = "object_of (description_msg (JStr ''d1''))"
  let ?d2 = "object_of (description_msg (JStr ''d2''))"
  have q: "queued ''description'' (run ?ops Signaling_new) = [JStr ''d1'', JStr ''d2'']"
    and h: "handed ''description'' (run ?ops Signaling_new) = []"
    by code_simp+
  from description_wait_consumes_one [where ops = ?ops and bodies = "[]"]
  have c: "handed ''description'' (state_of (receiveRemoteDescription [] (run ?ops Signaling_new)))
      = [JStr ''d1'']
    \<and> queued ''description'' (state_of (receiveRemoteDescription [] (run ?ops Signaling_new)))
      = [JStr ''d2'']"
    unfolding Let_def q h by simp
  have slot: "remoteDescriptionFuture (run [ReceiveRemoteDescription []] Signaling_new) = Some 1"
    by code_simp
  have d: "as_message ?d1 = Inr (description_msg (JStr ''d1''))"
    "is_kind ''description'' (description_msg (JStr ''d1''))"
    "payload (description_msg (JStr ''d1'')) = JStr ''d1''"
    by simp_all
  from description_wait_consumes_one
    [where ops = "[ReceiveRemoteDescription []]" and bodies = "[]" and raw = ?d1
       and body = "Return ()"]
    slot d
  have a: "resolved_value
        (state_of (receiveMessage (Return ()) ?d1 (run [ReceiveRemoteDescription []] Signaling_new))) 1
       = Some (Fulfilled (JStr ''d1''))
    \<and> state_of (receiveRemoteDescription [] (run [ReceiveRemoteDescription []] Signaling_new))
       = run [ReceiveRemoteDescription []] Signaling_new"
    unfolding Let_def by (metis option.distinct(1))
  have none: "remoteDescriptionFuture (run [] Signaling_new) = None"
    "queued ''description'' (run [] Signaling_new) = []"
    "handed ''description'' (run [] Signaling_new) = []"
    by code_simp+
  from description_wait_consumes_one
    [where ops = "[]" and bodies = "[]" and body = "Return ()" and body' = "Return ()"
       and ?v1.0 = "JStr ''d1''" and ?v2.0 = "JStr ''d2''"]
    none
  have b: "queued ''description''
        (state_of (receiveMessage (Return ()) ?d2
          (state_of (receiveMessage (Return ()) ?d1
            (state_of (receiveRemoteDescription [] (run [] Signaling_new))))))) = [JStr ''d2'']
    \<and> handed ''description''
        (state_of (receiveMessage (Return ()) ?d2
          (state_of (receiveMessage (Return ()) ?d1
            (state_of (receiveRemoteDescription [] (run [] Signaling_new))))))) = [JStr ''d1'']"
    unfolding Let_def by simp
  from c slot a b show ?thesis by (intro conjI) simp_all
qed

text \<open>
  C10 as stated fails for a call made while a wait is outstanding: after two calls of
  \<^verbatim>\<open>receiveRemoteDescription\<close> two descriptions arrive; the first is handed to the one
  Future both calls returned, the second is left in the queue with no wait outstanding.
  Two calls have consumed one description.
\<close>

theorem double_wait_consumes_one_example:
  "handed ''description'' (run double_wait_ops Signaling_new) = [JStr ''d1'']
   \<and> queued ''description'' (run double_wait_ops Signaling_new) = [JStr ''d2'']
   \<and> remoteDescriptionFuture (run double_wait_ops Signaling_new) = None
   \<and> returned (receiveRemoteDescription [] Signaling_new) = Some (Some 1)
   \<and> returned (receiveRemoteDescription [] (run [ReceiveRemoteDescription []] Signaling_new))
       = Some (Some 1)"
  by code_simp

text \<open>
  C2, evaluated on the code. After any history that leaves no wait outstanding and no
  description queued, whatever the handlers did and do: a call made before the
  description arrives returns a new Future, which the arriving description fulfils with
  its payload; a call made after the description has arrived and been queued resolves a
  new Future with the payload too, but returns \<^verbatim>\<open>null\<close>, the slot having been emptied
  before the return statement reads it.
\<close>

theorem wait_after_arrival_returns_null:
  "(let s = run ops Signaling_new; f = length (futures s); d = object_of (description_msg v)
    in remoteDescriptionFuture s = None \<longrightarrow> queued ''description'' s = [] \<longrightarrow>
         returned (receiveRemoteDescription bodies s) = Some (Some f)
       \<and> resolved_value
           (state_of (receiveMessage body d (state_of (receiveRemoteDescription bodies s)))) f
           = Some (Fulfilled v)
       \<and> returned (receiveRemoteDescription bodies' (state_of (receiveMessage body' d s)))
           = Some None
       \<and> resolved_value
           (state_of (receiveRemoteDescription bodies' (state_of (receiveMessage body' d s)))) f
           = Some (Fulfilled v))"
proof -
  define s where "s = run ops Signaling_new"
  define f where "f = length (futures s)"
  define m where "m = description_msg v"
  define d where "d = object_of m"
  have w: "well_formed s"
    unfolding s_def by (rule wf_run [OF wf_new])
  have m: "is_kind ''description'' m" "payload m = v" "m\<lparr>msg_value := Some v\<rparr> = m"
    unfolding m_def by (simp_all, simp add: description_msg_def)
  have d: "as_message d = Inr m"
    unfolding d_def by simp
  {
    assume slot: "remoteDescriptionFuture s = None" and none: "queued ''description'' s = []"
    let ?t = "s\<lparr>futures := futures s @ [Future_new None], remoteDescriptionFuture := Some f\<rparr>"
    have r: "receiveRemoteDescription bodies s = Return (Some f) ?t"
      unfolding f_def by (rule receiveRemoteDescription_nothing_queued [OF w slot none])
    from receiveRemoteDescription_result [OF w r]
    have wt: "well_formed ?t" by simp
    have before: "resolved_value (state_of (receiveMessage body d ?t)) f = Some (Fulfilled v)"
      using description_settles(2) [OF wt _ d m(1), of f body] m(2) by simp
    let ?s1 = "s\<lparr>pendingInboundMessages := pendingInboundMessages s @ [m]\<rparr>"
    have e: "receiveMessage body' d s = Return () ?s1"
      using description_enqueued [OF slot d m(1), of body'] m(2,3) by simp
    have "well_formed (state_of (receiveMessage body' d s))"
      unfolding e using w slot m(1)
      by (simp add: well_formed_def queued_def m_def queueable_def queue_kind_def
          description_msg_def is_kind_def)
    then have w1: "well_formed ?s1" by (simp add: e)
    have q1: "queued ''description'' ?s1 = v # []"
      using none m by (simp add: queued_push)
    have slot1: "remoteDescriptionFuture ?s1 = None" using slot by simp
    from receiveRemoteDescription_consumes_first [OF w1 slot1 q1, of bodies']
    obtain s' where s': "receiveRemoteDescription bodies' ?s1 = Return None s'"
      "futures s' = futures ?s1 @ [Future_resolve (Plain v) (Future_new None)]"
      by blast
    have after: "resolved_value s' f = Some (Fulfilled v)"
      using s'(2)
      by (simp add: resolved_value_def f_def Future_new_def pending_promise_def resolve_pending)
    have "returned (receiveRemoteDescription bodies s) = Some (Some f)
       \<and> resolved_value
           (state_of (receiveMessage body d (state_of (receiveRemoteDescription bodies s)))) f
           = Some (Fulfilled v)
       \<and> returned (receiveRemoteDescription bodies' (state_of (receiveMessage body' d s)))
           = Some None
       \<and> resolved_value
           (state_of (receiveRemoteDescription bodies' (state_of (receiveMessage body' d s)))) f
           = Some (Fulfilled v)"
      using r before e s'(1) after by simp
  }
  then show ?thesis
    unfolding Let_def s_def f_def d_def m_def by blast
qed

theorem wait_after_arrival_returns_null_example:
  "returned (receiveRemoteDescription [] Signaling_new) = Some (Some 1)
   \<and> resolved_value
       (state_of (receiveMessage (Return ()) (object_of (description_msg (JStr ''offer'')))
         (state_of (receiveRemoteDescription [] Signaling_new)))) 1
       = Some (Fulfilled (JStr ''offer''))
   \<and> returned (receiveRemoteDescription []
         (state_of (receiveMessage (Return ()) (object_of (description_msg (JStr ''offer'')))
            Signaling_new))) = Some None"
proof -
  have r: "run [] Signaling_new = Signaling_new"
    by (simp add: run_def)
  have h: "remoteDescriptionFuture Signaling_new = None"
    "queued ''description'' Signaling_new = []"
    "length (futures Signaling_new) = 1"
    by (simp_all add: Signaling_new_def queued_def)
  from wait_after_arrival_returns_null
    [where ops = "[]" and v = "JStr ''offer''" and bodies = "[]" and bodies' = "[]"
       and body = "Return ()" and body' = "Return ()"]
  show ?thesis
    unfolding Let_def r h by simp
qed

subsection \<open>The two transports\<close>

lemma send_open:
  "readyState (ws s) = 1 \<Longrightarrow>
   WebSocketSignaling_sendMessage stringify m s
     = s\<lparr>ws := (ws s)\<lparr>sent := sent (ws s) @ [stringify m]\<rparr>\<rparr>"
  by (simp add: WebSocketSignaling_sendMessage_def)

lemma send_not_open:
  "readyState (ws s) \<noteq> 1 \<Longrightarrow>
   WebSocketSignaling_sendMessage stringify m s
     = s\<lparr>pendingOutboundMessages := pendingOutboundMessages s @ [m]\<rparr>"
  by (simp add: WebSocketSignaling_sendMessage_def)

lemma send_all_not_open:
  "readyState (ws s) \<noteq> 1 \<Longrightarrow>
   send_all stringify ms s = s\<lparr>pendingOutboundMessages := pendingOutboundMessages s @ ms\<rparr>"
  unfolding send_all_def
  by (induction ms arbitrary: s) (simp_all add: send_not_open)

lemma send_all_open:
  "readyState (ws s) = 1 \<Longrightarrow>
   send_all stringify ms s = s\<lparr>ws := (ws s)\<lparr>sent := sent (ws s) @ map stringify ms\<rparr>\<rparr>"
  unfolding send_all_def
  by (induction ms arbitrary: s) (simp_all add: send_open)

lemma onopen_loop_open:
  "readyState (ws s) = 1 \<Longrightarrow>
   onopen_loop stringify i s
     = Some (s\<lparr>ws := (ws s)\<lparr>sent := sent (ws s) @ map stringify (drop i (pendingOutboundMessages s))\<rparr>\<rparr>)"
proof (induction "length (pendingOutboundMessages s) - i" arbitrary: i s)
  case 0
  then show ?case
    by (subst onopen_loop.simps) simp
next
  case (Suc n)
  then have i: "i < length (pendingOutboundMessages s)" by simp
  let ?s1 = "s\<lparr>ws := (ws s)\<lparr>sent := sent (ws s) @ [stringify (pendingOutboundMessages s ! i)]\<rparr>\<rparr>"
  have "onopen_loop stringify i s = onopen_loop stringify (Suc i) ?s1"
    using i Suc.prems by (subst onopen_loop.simps) (simp add: send_open)
  also have "\<dots> = Some (?s1\<lparr>ws := (ws ?s1)\<lparr>sent := sent (ws ?s1) @
        map stringify (drop (Suc i) (pendingOutboundMessages ?s1))\<rparr>\<rparr>)"
    using Suc.hyps(2) Suc.prems by (intro Suc.hyps(1)) simp_all
  finally show ?case
    using i by (simp add: Cons_nth_drop_Suc [symmetric])
qed

text \<open>
  C3. On a WebSocket instance whose socket is not open: messages sent are appended to the
  outbound queue in send order and nothing is transmitted; the open event then ends,
  having transmitted everything queued, in queue order, after what was sent before; and
  each message sent after that, the socket staying open, is transmitted at once, after
  all of those, the queue being left alone.
\<close>

theorem outbound_queue_flushed_in_order:
  assumes "readyState (ws s) \<noteq> 1"
  shows "(let s1 = send_all stringify before s
          in sent (ws s1) = sent (ws s)
           \<and> pendingOutboundMessages s1 = pendingOutboundMessages s @ before
           \<and> (case open_event stringify s1 of
                 None \<Rightarrow> False
               | Some s2 \<Rightarrow>
                   sent (ws s2) = sent (ws s) @ map stringify (pendingOutboundMessages s @ before)
                   \<and> (let s3 = send_all stringify after s2
                       in sent (ws s3) = sent (ws s2) @ map stringify after
                        \<and> pendingOutboundMessages s3 = pendingOutboundMessages s2)))"
proof -
  let ?s1 = "s\<lparr>pendingOutboundMessages := pendingOutboundMessages s @ before\<rparr>"
  let ?o = "?s1\<lparr>ws := (ws ?s1)\<lparr>readyState := 1\<rparr>\<rparr>"
  let ?s2 = "?o\<lparr>ws := (ws ?o)\<lparr>sent := sent (ws ?o) @
      map stringify (drop 0 (pendingOutboundMessages ?o))\<rparr>\<rparr>"
  have 1: "send_all stringify before s = ?s1"
    using assms by (rule send_all_not_open)
  have 2: "open_event stringify ?s1 = Some ?s2"
    unfolding open_event_def ws_onopen_def by (rule onopen_loop_open) simp
  have 3: "send_all stringify after ?s2 = ?s2\<lparr>ws := (ws ?s2)\<lparr>sent := sent (ws ?s2) @ map stringify after\<rparr>\<rparr>"
    by (rule send_all_open) simp
  show ?thesis
    unfolding Let_def 1 2 option.case 3 by simp
qed

theorem outbound_queue_flushed_in_order_example:
  "readyState (ws WebSocketSignaling_new) \<noteq> 1
   \<and> map_option (\<lambda>s. sent (ws (send_all payload_text [data_msg (JStr ''c'')] s)))
       (open_event payload_text
          (send_all payload_text
             [description_msg (JStr ''a''), candidate_msg (JStr ''b'')] WebSocketSignaling_new))
     = Some [''a'', ''b'', ''c'']"
proof -
  have h: "readyState (ws WebSocketSignaling_new) \<noteq> 1"
    "sent (ws WebSocketSignaling_new) = []"
    "pendingOutboundMessages WebSocketSignaling_new = []"
    by (simp_all add: WebSocketSignaling_new_def WebSocket_new_def signaling.defs
        websocket_signaling.defs Signaling_new_def)
  let ?sfy = payload_text
  let ?b = "[description_msg (JStr ''a''), candidate_msg (JStr ''b'')]"
  let ?a = "[data_msg (JStr ''c'')]"
  from outbound_queue_flushed_in_order [OF h(1), of ?sfy ?b ?a]
  obtain s2 where o: "open_event ?sfy (send_all ?sfy ?b WebSocketSignaling_new) = Some s2"
    and s2: "sent (ws s2) = sent (ws WebSocketSignaling_new) @
               map ?sfy (pendingOutboundMessages WebSocketSignaling_new @ ?b)"
    and s3: "sent (ws (send_all ?sfy ?a s2)) = sent (ws s2) @ map ?sfy ?a"
    unfolding Let_def by (auto split: option.splits)
  have "map ?sfy ?b = [''a'', ''b'']" "map ?sfy ?a = [''c'']"
    by (simp_all add: payload_text_def description_msg_def candidate_msg_def data_msg_def value_of_def)
  with o s2 s3 h show ?thesis by simp
qed

lemma done_first:
  "\<not> doneSent s \<Longrightarrow>
   WebSocketSignaling_done stringify r s
     = (remoteDoneFuture s, (WebSocketSignaling_sendMessage stringify (done_msg r) s)\<lparr>doneSent := True\<rparr>)"
  by (simp add: WebSocketSignaling_done_def WebSocketSignaling_sendMessage_def)

lemma done_again:
  "doneSent s \<Longrightarrow> WebSocketSignaling_done_calls stringify rs s
     = (replicate (length rs) (remoteDoneFuture s), s)"
  by (induction rs) (simp_all add: WebSocketSignaling_done_def)

lemma WebSocketSignaling_done_once:
  assumes "\<not> doneSent s"
  shows "WebSocketSignaling_done_calls stringify (r # rs) s
     = (replicate (Suc (length rs)) (remoteDoneFuture s),
        (WebSocketSignaling_sendMessage stringify (done_msg r) s)\<lparr>doneSent := True\<rparr>)"
proof -
  let ?s1 = "(WebSocketSignaling_sendMessage stringify (done_msg r) s)\<lparr>doneSent := True\<rparr>"
  have "doneSent ?s1" by simp
  from done_again [OF this, of stringify rs]
  have "WebSocketSignaling_done_calls stringify rs ?s1
      = (replicate (length rs) (remoteDoneFuture s), ?s1)"
    by (simp add: WebSocketSignaling_sendMessage_def)
  with assms show ?thesis
    by (simp add: done_first)
qed

lemma is_kind_msgs [simp]:
  "is_kind ''done'' (done_msg v)" "payload (done_msg v) = v" "defaulted (done_msg v) = done_msg v"
  "defaulted (description_msg v) = description_msg v"
  by (simp_all add: done_msg_def description_msg_def is_kind_def payload_def defaulted_def)

lemma loopback_send_done:
  "other (st this) = Some peer \<Longrightarrow>
   LoopbackSignaling_sendMessage body this (done_msg r) st
     = Return () (st(peer := handleDone (done_msg r) (st peer)))"
  by (simp add: LoopbackSignaling_sendMessage_def receiveMessage_done)

lemma loopback_done_first:
  assumes "\<not> doneSent (st this)" "other (st this) = Some peer" "peer \<noteq> this"
  shows "LoopbackSignaling_done body this r st
     = Return (remoteDoneFuture (st this))
         (st(peer := handleDone (done_msg r) (st peer), this := (st this)\<lparr>doneSent := True\<rparr>))"
  using assms by (simp add: LoopbackSignaling_done_def loopback_send_done)

lemma loopback_done_again:
  "doneSent (st this) \<Longrightarrow>
   LoopbackSignaling_done_calls body this rs st
     = Return (replicate (length rs) (remoteDoneFuture (st this))) st"
  by (induction rs) (simp_all add: LoopbackSignaling_done_def)

lemma LoopbackSignaling_done_once:
  assumes "\<not> doneSent (st this)" "other (st this) = Some peer" "peer \<noteq> this"
  shows "LoopbackSignaling_done_calls body this (r # rs) st
     = Return (replicate (Suc (length rs)) (remoteDoneFuture (st this)))
         (st(peer := handleDone (done_msg r) (st peer), this := (st this)\<lparr>doneSent := True\<rparr>))"
proof -
  let ?st1 = "st(peer := handleDone (done_msg r) (st peer), this := (st this)\<lparr>doneSent := True\<rparr>)"
  have "doneSent (?st1 this)" by simp
  from loopback_done_again [of ?st1 this body rs, OF this]
  have "LoopbackSignaling_done_calls body this rs ?st1
      = Return (replicate (length rs) (remoteDoneFuture (st this))) ?st1"
    by simp
  with loopback_done_first [of st this peer body r] assms show ?thesis by simp
qed

text \<open>
  C4. On an instance that has not sent \<^verbatim>\<open>done\<close> yet, any number of \<^verbatim>\<open>_done\<close> calls, one or
  more, all return the address of the one remote-done Future, and leave the state that a
  single \<^verbatim>\<open>_sendMessage\<close> of the \<^verbatim>\<open>done\<close> envelope with the first call's argument leaves:
  on a WebSocket instance that envelope alone is added to the frames sent, if the socket
  is open, or to the outbound queue, if it is not; on a loopback instance with a peer the
  peer handles that one \<^verbatim>\<open>done\<close> envelope, whatever its handlers would do, and nothing
  else changes but \<^verbatim>\<open>_doneSent\<close>.
\<close>

theorem done_sent_once:
  "(\<not> doneSent s \<longrightarrow>
      (let (fs, s') = WebSocketSignaling_done_calls stringify (r # rs) s
       in fs = replicate (Suc (length rs)) (remoteDoneFuture s)
        \<and> doneSent s'
        \<and> sent (ws s') = sent (ws s) @ (if readyState (ws s) = 1 then [stringify (done_msg r)] else [])
        \<and> pendingOutboundMessages s'
            = pendingOutboundMessages s @ (if readyState (ws s) = 1 then [] else [done_msg r])))
   \<and> (\<not> doneSent (st this) \<longrightarrow> other (st this) = Some peer \<longrightarrow> peer \<noteq> this \<longrightarrow>
      LoopbackSignaling_done_calls body this (r # rs) st
        = Return (replicate (Suc (length rs)) (remoteDoneFuture (st this)))
            (st(peer := handleDone (done_msg r) (st peer),
                this := (st this)\<lparr>doneSent := True\<rparr>))
      \<and> delivered (handleDone (done_msg r) (st peer)) = delivered (st peer) @ [DoneResolved r])"
proof (intro conjI impI)
  assume n: "\<not> doneSent s"
  show "let (fs, s') = WebSocketSignaling_done_calls stringify (r # rs) s
       in fs = replicate (Suc (length rs)) (remoteDoneFuture s)
        \<and> doneSent s'
        \<and> sent (ws s') = sent (ws s) @ (if readyState (ws s) = 1 then [stringify (done_msg r)] else [])
        \<and> pendingOutboundMessages s'
            = pendingOutboundMessages s @ (if readyState (ws s) = 1 then [] else [done_msg r])"
    unfolding WebSocketSignaling_done_once [OF n] Let_def prod.case
    by (simp add: WebSocketSignaling_sendMessage_def)
next
  assume "\<not> doneSent (st this)" "other (st this) = Some peer" "peer \<noteq> this"
  then show "LoopbackSignaling_done_calls body this (r # rs) st
        = Return (replicate (Suc (length rs)) (remoteDoneFuture (st this)))
            (st(peer := handleDone (done_msg r) (st peer),
                this := (st this)\<lparr>doneSent := True\<rparr>))"
    by (rule LoopbackSignaling_done_once)
next
  show "delivered (handleDone (done_msg r) (st peer)) = delivered (st peer) @ [DoneResolved r]"
    by (simp add: handleDone_def resolve_at_def Let_def done_msg_def value_of_def)
qed

theorem done_sent_once_example:
  "fst (WebSocketSignaling_done_calls payload_text [JStr ''PASS'', JStr ''FAIL'']
          WebSocketSignaling_new) = [0, 0]
   \<and> pendingOutboundMessages
        (snd (WebSocketSignaling_done_calls payload_text [JStr ''PASS'', JStr ''FAIL'']
          WebSocketSignaling_new)) = [done_msg (JStr ''PASS'')]
   \<and> returned (LoopbackSignaling_done_calls (Return ()) 0 [JStr ''PASS'', JStr ''FAIL''] loopback_pair)
       = Some [0, 0]
   \<and> delivered
        (state_of (LoopbackSignaling_done_calls (Return ()) 0 [JStr ''PASS'', JStr ''FAIL''] loopback_pair) 1)
       = [DoneResolved (JStr ''PASS'')]"
proof -
  have h: "\<not> doneSent WebSocketSignaling_new" "readyState (ws WebSocketSignaling_new) = 0"
    "pendingOutboundMessages WebSocketSignaling_new = []" "remoteDoneFuture WebSocketSignaling_new = 0"
    by (simp_all add: WebSocketSignaling_new_def WebSocket_new_def signaling.defs
        websocket_signaling.defs Signaling_new_def)
  have l: "\<not> doneSent (loopback_pair 0)" "other (loopback_pair 0) = Some 1" "(1::nat) \<noteq> 0"
    "remoteDoneFuture (loopback_pair 0) = 0" "delivered (loopback_pair 1) = []"
    by (simp_all add: loopback_pair_def LoopbackSignaling_new_def signaling.defs
        loopback_signaling.defs Signaling_new_def)
  from done_sent_once [where s = WebSocketSignaling_new and stringify = payload_text
      and r = "JStr ''PASS''" and rs = "[JStr ''FAIL'']" and st = loopback_pair and this = 0
      and peer = 1 and body = "Return ()"] h l
  show ?thesis
    by (simp add: Let_def split: prod.splits)
qed

subsection \<open>The completion override\<close>

lemma local_result_status: "get_prop (local_result t) Status = Inr (JNum (local_status t))"
  by (simp add: local_result_def local_status_def Let_def)

lemma resume_not_pass:
  "local_status t \<noteq> PASS t \<Longrightarrow>
   test_done_resume (local_result t) remote t =
     Return () (t\<lparr>harness_calls := harness_calls t @ [OriginalDone]\<rparr>)"
  by (simp add: test_done_resume_def local_result_status original_done_def)

lemma resume_pass:
  "local_status t = PASS t \<Longrightarrow>
   test_done_resume (local_result t) remote t =
     (case get_prop remote Status of
        Inl e \<Rightarrow> Throw e t
      | Inr remote_status \<Rightarrow>
          if remote_status \<noteq> JNum (PASS t)
          then (case get_prop remote Message of
                  Inl e \<Rightarrow> Throw e t
                | Inr remote_message \<Rightarrow>
                    (case ToString remote_message of
                       Inl e \<Rightarrow> Throw e t
                     | Inr printed \<Rightarrow>
                         Return ()
                           (t\<lparr>status := FAIL t,
                              message := JStr (''(Remote) '' @ printed),
                              phase := HAS_RESULT t,
                              harness_calls := harness_calls t @
                                [SetStatus (FAIL t) (''(Remote) '' @ printed), OriginalDone]\<rparr>)))
          else Return () (t\<lparr>harness_calls := harness_calls t @ [OriginalDone]\<rparr>))"
  by (simp add: test_done_resume_def local_result_status set_status_def original_done_def Let_def
      cong: sum.case_cong split: sum.splits)

text \<open>
  C5, as the code has it. In cross-instance mode, at completion: the \<^verbatim>\<open>status\<close> of
  \<^verbatim>\<open>local\<close> is \<^verbatim>\<open>PASS\<close> when the phase is at or before \<^verbatim>\<open>STARTED\<close> and the test's status
  otherwise, its \<^verbatim>\<open>message\<close> is the test's message unless that status is \<^verbatim>\<open>PASS\<close>.
  \<^verbatim>\<open>_done\<close> is called with \<^verbatim>\<open>local\<close> and returns the remote-done Future; if the instance
  had not sent \<^verbatim>\<open>done\<close> before, the \<^verbatim>\<open>done\<close> envelope carrying \<^verbatim>\<open>local\<close>, and nothing
  else, is added to the frames sent when the socket is open and to the outbound queue
  when it is not, and \<^verbatim>\<open>_doneSent\<close> is set; if it had, nothing changes. Once the peer's
  result \<^verbatim>\<open>remote\<close> is there: if the local status is not \<^verbatim>\<open>PASS\<close>, the original \<^verbatim>\<open>done\<close>
  runs on the test as it is, whatever \<^verbatim>\<open>remote\<close> is. If it is \<^verbatim>\<open>PASS\<close>: when
  \<^verbatim>\<open>remote.status\<close> cannot be read (\<^verbatim>\<open>remote\<close> is \<^verbatim>\<open>null\<close> or \<^verbatim>\<open>undefined\<close>), the override
  throws that \<^verbatim>\<open>TypeError\<close> and the original \<^verbatim>\<open>done\<close> never runs; when \<^verbatim>\<open>remote.status\<close> is
  \<^verbatim>\<open>PASS\<close>, the original \<^verbatim>\<open>done\<close> runs on the test as it is; when it is not and
  \<^verbatim>\<open>remote.message\<close> converts to a string, \<^verbatim>\<open>set_status\<close> is called with \<^verbatim>\<open>FAIL\<close> and that
  string after the prefix \<^verbatim>\<open>(Remote) \<close>, the phase becomes \<^verbatim>\<open>HAS_RESULT\<close>, and only then
  the original \<^verbatim>\<open>done\<close> runs; and when the conversion throws, the override throws the
  same, the test is left as it was, and neither \<^verbatim>\<open>set_status\<close> nor the original \<^verbatim>\<open>done\<close>
  is called.
\<close>

theorem done_override_reconciles:
  "get_prop (local_result t) Status
      = Inr (JNum (if phase t \<le> STARTED t then PASS t else status t))
   \<and> get_prop (local_result t) Message
      = Inr (if local_status t \<noteq> PASS t then message t else JNull)
   \<and> (let (local, future, s') = test_done_begin stringify t s
       in local = local_result t
        \<and> future = remoteDoneFuture s
        \<and> (doneSent s \<longrightarrow> s' = s)
        \<and> (\<not> doneSent s \<longrightarrow>
              doneSent s'
              \<and> sent (ws s') = sent (ws s)
                   @ (if readyState (ws s) = 1 then [stringify (done_msg (local_result t))] else [])
              \<and> pendingOutboundMessages s' = pendingOutboundMessages s
                   @ (if readyState (ws s) = 1 then [] else [done_msg (local_result t)])))
   \<and> (local_status t \<noteq> PASS t \<longrightarrow>
        test_done_resume (local_result t) remote t =
          Return () (t\<lparr>harness_calls := harness_calls t @ [OriginalDone]\<rparr>))
   \<and> (local_status t = PASS t \<longrightarrow>
        (\<forall>e. get_prop remote Status = Inl e \<longrightarrow>
           test_done_resume (local_result t) remote t = Throw e t)
      \<and> (get_prop remote Status = Inr (JNum (PASS t)) \<longrightarrow>
           test_done_resume (local_result t) remote t =
             Return () (t\<lparr>harness_calls := harness_calls t @ [OriginalDone]\<rparr>))
      \<and> (\<forall>rs rm. get_prop remote Status = Inr rs \<longrightarrow> rs \<noteq> JNum (PASS t) \<longrightarrow>
           get_prop remote Message = Inr rm \<longrightarrow>
             (\<forall>printed. ToString rm = Inr printed \<longrightarrow>
                test_done_resume (local_result t) remote t =
                  Return ()
                    (t\<lparr>status := FAIL t,
                       message := JStr (''(Remote) '' @ printed),
                       phase := HAS_RESULT t,
                       harness_calls := harness_calls t @
                         [SetStatus (FAIL t) (''(Remote) '' @ printed), OriginalDone]\<rparr>))
           \<and> (\<forall>e. ToString rm = Inl e \<longrightarrow>
                test_done_resume (local_result t) remote t = Throw e t)))"
proof -
  have 1: "get_prop (local_result t) Status
      = Inr (JNum (if phase t \<le> STARTED t then PASS t else status t))"
    by (simp add: local_result_status local_status_def)
  have 2: "get_prop (local_result t) Message
      = Inr (if local_status t \<noteq> PASS t then message t else JNull)"
    by (simp add: local_result_def local_status_def Let_def)
  have 3: "(let (local, future, s') = test_done_begin stringify t s
       in local = local_result t
        \<and> future = remoteDoneFuture s
        \<and> (doneSent s \<longrightarrow> s' = s)
        \<and> (\<not> doneSent s \<longrightarrow>
              doneSent s'
              \<and> sent (ws s') = sent (ws s)
                   @ (if readyState (ws s) = 1 then [stringify (done_msg (local_result t))] else [])
              \<and> pendingOutboundMessages s' = pendingOutboundMessages s
                   @ (if readyState (ws s) = 1 then [] else [done_msg (local_result t)])))"
    by (simp add: test_done_begin_def Let_def WebSocketSignaling_done_def
        WebSocketSignaling_sendMessage_def)
  have 4: "local_status t \<noteq> PASS t \<longrightarrow>
        test_done_resume (local_result t) remote t =
          Return () (t\<lparr>harness_calls := harness_calls t @ [OriginalDone]\<rparr>)"
    by (intro impI) (rule resume_not_pass)
  have 5: "local_status t = PASS t \<longrightarrow>
        (\<forall>e. get_prop remote Status = Inl e \<longrightarrow>
           test_done_resume (local_result t) remote t = Throw e t)
      \<and> (get_prop remote Status = Inr (JNum (PASS t)) \<longrightarrow>
           test_done_resume (local_result t) remote t =
             Return () (t\<lparr>harness_calls := harness_calls t @ [OriginalDone]\<rparr>))
      \<and> (\<forall>rs rm. get_prop remote Status = Inr rs \<longrightarrow> rs \<noteq> JNum (PASS t) \<longrightarrow>
           get_prop remote Message = Inr rm \<longrightarrow>
             (\<forall>printed. ToString rm = Inr printed \<longrightarrow>
                test_done_resume (local_result t) remote t =
                  Return ()
                    (t\<lparr>status := FAIL t,
                       message := JStr (''(Remote) '' @ printed),
                       phase := HAS_RESULT t,
                       harness_calls := harness_calls t @
                         [SetStatus (FAIL t) (''(Remote) '' @ printed), OriginalDone]\<rparr>))
           \<and> (\<forall>e. ToString rm = Inl e \<longrightarrow>
                test_done_resume (local_result t) remote t = Throw e t))"
  proof
    assume "local_status t = PASS t"
    note r = resume_pass [OF this, of remote]
    show "(\<forall>e. get_prop remote Status = Inl e \<longrightarrow>
           test_done_resume (local_result t) remote t = Throw e t)
      \<and> (get_prop remote Status = Inr (JNum (PASS t)) \<longrightarrow>
           test_done_resume (local_result t) remote t =
             Return () (t\<lparr>harness_calls := harness_calls t @ [OriginalDone]\<rparr>))
      \<and> (\<forall>rs rm. get_prop remote Status = Inr rs \<longrightarrow> rs \<noteq> JNum (PASS t) \<longrightarrow>
           get_prop remote Message = Inr rm \<longrightarrow>
             (\<forall>printed. ToString rm = Inr printed \<longrightarrow>
                test_done_resume (local_result t) remote t =
                  Return ()
                    (t\<lparr>status := FAIL t,
                       message := JStr (''(Remote) '' @ printed),
                       phase := HAS_RESULT t,
                       harness_calls := harness_calls t @
                         [SetStatus (FAIL t) (''(Remote) '' @ printed), OriginalDone]\<rparr>))
           \<and> (\<forall>e. ToString rm = Inl e \<longrightarrow>
                test_done_resume (local_result t) remote t = Throw e t))"
      unfolding r by simp
  qed
  from 1 2 3 4 5 show ?thesis by (intro conjI)
qed

theorem done_override_reconciles_example:
  "local_result running_test = JObj [(''status'', JNum (Number ''0'')), (''message'', JNull)]
   \<and> pendingOutboundMessages (snd (snd (test_done_begin payload_text running_test WebSocketSignaling_new)))
      = [done_msg (JObj [(''status'', JNum (Number ''0'')), (''message'', JNull)])]
   \<and> test_done_resume (local_result running_test)
        (JObj [(''status'', JNum (Number ''1'')), (''message'', JStr ''X'')]) running_test
      = Return ()
          (running_test\<lparr>status := Number ''1'', message := JStr ''(Remote) X'', phase := 2,
             harness_calls := [SetStatus (Number ''1'') ''(Remote) X'', OriginalDone]\<rparr>)
   \<and> test_done_resume (local_result running_test)
        (JObj [(''status'', JNum (Number ''0'')), (''message'', JNull)]) running_test
      = Return () (running_test\<lparr>harness_calls := [OriginalDone]\<rparr>)
   \<and> local_result failed_test
      = JObj [(''status'', JNum (Number ''1'')), (''message'', JStr ''assert_equals failed'')]
   \<and> test_done_resume (local_result failed_test)
        (JObj [(''status'', JNum (Number ''1'')), (''message'', JStr ''X'')]) failed_test
      = Return () (failed_test\<lparr>harness_calls := [OriginalDone]\<rparr>)"
proof -
  have l: "local_result running_test = JObj [(''status'', JNum (Number ''0'')), (''message'', JNull)]"
    "local_status running_test = Number ''0''" "PASS running_test = Number ''0''"
    "FAIL running_test = Number ''1''"
    "HAS_RESULT running_test = 2" "harness_calls running_test = []"
    by (simp_all add: local_result_def local_status_def running_test_def)
  have f: "local_result failed_test
      = JObj [(''status'', JNum (Number ''1'')), (''message'', JStr ''assert_equals failed'')]"
    "local_status failed_test = Number ''1''" "PASS failed_test = Number ''0''"
    "harness_calls failed_test = []"
    by (simp_all add: local_result_def local_status_def failed_test_def)
  have g: "get_prop (JObj [(''status'', JNum (Number ''1'')), (''message'', JStr ''X'')]) Status
             = Inr (JNum (Number ''1''))"
    "get_prop (JObj [(''status'', JNum (Number ''1'')), (''message'', JStr ''X'')]) Message
             = Inr (JStr ''X'')"
    "get_prop (JObj [(''status'', JNum (Number ''0'')), (''message'', JNull)]) Status
             = Inr (JNum (Number ''0''))"
    "ToString (JStr ''X'') = Inr ''X''"
    by simp_all
  have h: "\<not> doneSent WebSocketSignaling_new" "readyState (ws WebSocketSignaling_new) = 0"
    "pendingOutboundMessages WebSocketSignaling_new = []"
    by (simp_all add: WebSocketSignaling_new_def WebSocket_new_def signaling.defs
        websocket_signaling.defs Signaling_new_def)
  note a = done_override_reconciles
    [where t = running_test and stringify = payload_text and s = WebSocketSignaling_new
       and remote = "JObj [(''status'', JNum (Number ''1'')), (''message'', JStr ''X'')]"]
  from a have "let (local, future, s') = test_done_begin payload_text running_test WebSocketSignaling_new
       in local = local_result running_test
        \<and> future = remoteDoneFuture WebSocketSignaling_new
        \<and> (doneSent WebSocketSignaling_new \<longrightarrow> s' = WebSocketSignaling_new)
        \<and> (\<not> doneSent WebSocketSignaling_new \<longrightarrow>
              doneSent s'
              \<and> sent (ws s') = sent (ws WebSocketSignaling_new)
                   @ (if readyState (ws WebSocketSignaling_new) = 1
                      then [payload_text (done_msg (local_result running_test))] else [])
              \<and> pendingOutboundMessages s' = pendingOutboundMessages WebSocketSignaling_new
                   @ (if readyState (ws WebSocketSignaling_new) = 1 then []
                      else [done_msg (local_result running_test)]))"
    by (rule conjunct2 [THEN conjunct2, THEN conjunct1])
  then have 0: "pendingOutboundMessages
        (snd (snd (test_done_begin payload_text running_test WebSocketSignaling_new)))
      = [done_msg (JObj [(''status'', JNum (Number ''0'')), (''message'', JNull)])]"
    using h l(1) by (simp add: Let_def split: prod.splits)
  have pass: "local_status running_test = PASS running_test"
    and ne: "JNum (Number ''1'') \<noteq> JNum (PASS running_test)"
    and eq: "get_prop (JObj [(''status'', JNum (Number ''0'')), (''message'', JNull)]) Status
               = Inr (JNum (PASS running_test))"
    and fail: "local_status failed_test \<noteq> PASS failed_test"
    by (simp_all add: l f)
  note b = a [THEN conjunct2, THEN conjunct2, THEN conjunct2, THEN conjunct2, rule_format, OF pass]
  note c = b [THEN conjunct2, THEN conjunct2, rule_format, OF g(1) ne g(2)]
  from c [THEN conjunct1, rule_format, OF g(4)]
  have 1: "test_done_resume (local_result running_test)
        (JObj [(''status'', JNum (Number ''1'')), (''message'', JStr ''X'')]) running_test
      = Return ()
          (running_test\<lparr>status := Number ''1'', message := JStr ''(Remote) X'', phase := 2,
             harness_calls := [SetStatus (Number ''1'') ''(Remote) X'', OriginalDone]\<rparr>)"
    by (simp add: l(3-))
  from done_override_reconciles
    [where t = running_test and stringify = payload_text and s = WebSocketSignaling_new
       and remote = "JObj [(''status'', JNum (Number ''0'')), (''message'', JNull)]",
     THEN conjunct2, THEN conjunct2, THEN conjunct2, THEN conjunct2, rule_format, OF pass,
     THEN conjunct2, THEN conjunct1, rule_format, OF eq]
  have 2: "test_done_resume (local_result running_test)
        (JObj [(''status'', JNum (Number ''0'')), (''message'', JNull)]) running_test
      = Return () (running_test\<lparr>harness_calls := [OriginalDone]\<rparr>)"
    by (simp add: l(3-))
  from done_override_reconciles
    [where t = failed_test and stringify = payload_text and s = WebSocketSignaling_new
       and remote = "JObj [(''status'', JNum (Number ''1'')), (''message'', JStr ''X'')]",
     THEN conjunct2, THEN conjunct2, THEN conjunct2, THEN conjunct1, rule_format, OF fail]
  have 3: "test_done_resume (local_result failed_test)
        (JObj [(''status'', JNum (Number ''1'')), (''message'', JStr ''X'')]) failed_test
      = Return () (failed_test\<lparr>harness_calls := [OriginalDone]\<rparr>)"
    by (simp add: f(3-))
  from l(1) 0 1 2 f(1) 3 show ?thesis by (intro conjI)
qed

text \<open>
  C5 as stated fails when the remote's message cannot be converted to a string: the local
  status is \<^verbatim>\<open>PASS\<close>, the remote's status is not, and the override throws a \<^verbatim>\<open>TypeError\<close>;
  the local result is not set to \<^verbatim>\<open>FAIL\<close> and the original completion callback does not
  run.
\<close>

theorem unprintable_remote_message_example:
  "get_prop (local_result running_test) Status = Inr (JNum (PASS running_test))
   \<and> get_prop unprintable_result Status = Inr (JNum (Number ''1''))
   \<and> JNum (Number ''1'') \<noteq> JNum (PASS running_test)
   \<and> test_done_resume (local_result running_test) unprintable_result running_test
       = Throw (TypeError ''Cannot convert object to primitive value'') running_test
   \<and> harness_calls (state_of
        (test_done_resume (local_result running_test) unprintable_result running_test)) = []"
  by code_simp

subsection \<open>The description exchange\<close>

text \<open>
  When the answerer starts first, it is already waiting when the offer arrives, and each
  side applies the other's description.
\<close>

lemma exchange_answerer_first:
  "pc_calls (pc (answerer (run_schedule body bodies answerer_first (loopback_world offer answer))))
     = [SetRemoteDescription offer, CreateAnswer, SetLocalDescription answer]
   \<and> pc_calls (pc (offerer (run_schedule body bodies answerer_first (loopback_world offer answer))))
     = [CreateOffer, SetLocalDescription offer, SetRemoteDescription answer]
   \<and> point (offerer (run_schedule body bodies answerer_first (loopback_world offer answer))) = Finished
   \<and> point (answerer (run_schedule body bodies answerer_first (loopback_world offer answer))) = Finished"
  by code_simp

text \<open>
  C6, evaluated on the code. On a cross-wired loopback pair the offerer runs
  \<^verbatim>\<open>exchangeDescriptions\<close> up to the sending of its offer before the answerer starts its
  own call: the answerer's instance resolves a Future with the offer, but its
  \<^verbatim>\<open>receiveRemoteDescription\<close> returns \<^verbatim>\<open>null\<close>, and what the answerer applies as the remote
  description is \<^verbatim>\<open>null\<close>, not the offer. No handler is called on the way, so this holds
  whatever the handlers would do.
\<close>

theorem exchange_offer_first_applies_null:
  "delivered (signalings (run_schedule body bodies offer_first (loopback_world offer answer)) 1)
     = [DescriptionResolved 1 offer]
   \<and> point (answerer (run_schedule body bodies (take 4 offer_first) (loopback_world offer answer)))
     = AwaitRemoteDescription None
   \<and> pc_calls (pc (answerer (run_schedule body bodies offer_first (loopback_world offer answer))))
     = [SetRemoteDescription JNull]"
  by code_simp

end
